theory Spec2Isabelle
  imports Complex_Main
begin

section \<open>Numbers\<close>

text \<open>
  The entries of a scheme table are IEEE doubles (numpy float64). A finite double is
  modelled by the real number it denotes, and arithmetic on finite values is exact:
  rounding, overflow and the sign of zero are outside the model. The two infinities and
  NaN are kept as values of their own, with the IEEE rules for them, because the
  comparisons of the source (\<open><=\<close>, \<open>>\<close>, \<open><\<close>, \<open>==\<close>) are all false on NaN.
\<close>

datatype fl = Fin real | PInf | NInf | NaN

fun fl_neg :: "fl \<Rightarrow> fl" where
  "fl_neg (Fin x) = Fin (- x)"
| "fl_neg PInf = NInf"
| "fl_neg NInf = PInf"
| "fl_neg NaN = NaN"

fun fl_add :: "fl \<Rightarrow> fl \<Rightarrow> fl" where
  "fl_add NaN _ = NaN"
| "fl_add _ NaN = NaN"
| "fl_add (Fin x) (Fin y) = Fin (x + y)"
| "fl_add PInf NInf = NaN"
| "fl_add NInf PInf = NaN"
| "fl_add PInf _ = PInf"
| "fl_add NInf _ = NInf"
| "fl_add (Fin x) PInf = PInf"
| "fl_add (Fin x) NInf = NInf"

definition fl_sub :: "fl \<Rightarrow> fl \<Rightarrow> fl" where
  "fl_sub x y = fl_add x (fl_neg y)"

text \<open>The sign of a value that is not NaN: \<open>-1\<close>, \<open>0\<close> or \<open>1\<close>.\<close>

fun fl_sgn :: "fl \<Rightarrow> real" where
  "fl_sgn (Fin x) = sgn x"
| "fl_sgn PInf = 1"
| "fl_sgn NInf = - 1"
| "fl_sgn NaN = 0"

definition inf_of_sgn :: "real \<Rightarrow> fl" where
  "inf_of_sgn s = (if s = 0 then NaN else if 0 < s then PInf else NInf)"

fun fl_mul :: "fl \<Rightarrow> fl \<Rightarrow> fl" where
  "fl_mul NaN _ = NaN"
| "fl_mul _ NaN = NaN"
| "fl_mul (Fin x) (Fin y) = Fin (x * y)"
| "fl_mul x y = inf_of_sgn (fl_sgn x * fl_sgn y)"

text \<open>
  Division. Every divisor in the source is a non-zero constant or a sample count of at
  least one; a zero divisor is given the IEEE result for a positive zero.
\<close>

fun fl_div :: "fl \<Rightarrow> fl \<Rightarrow> fl" where
  "fl_div NaN _ = NaN"
| "fl_div _ NaN = NaN"
| "fl_div (Fin x) (Fin y) = (if y = 0 then inf_of_sgn (sgn x) else Fin (x / y))"
| "fl_div (Fin x) _ = Fin 0"
| "fl_div x (Fin y) = inf_of_sgn (fl_sgn x * (if y < 0 then - 1 else 1))"
| "fl_div _ _ = NaN"

text \<open>\<open>np.sqrt\<close>: NaN on a negative argument.\<close>

fun fl_sqrt :: "fl \<Rightarrow> fl" where
  "fl_sqrt (Fin x) = (if x < 0 then NaN else Fin (sqrt x))"
| "fl_sqrt PInf = PInf"
| "fl_sqrt NInf = NaN"
| "fl_sqrt NaN = NaN"

fun fl_lt :: "fl \<Rightarrow> fl \<Rightarrow> bool" where
  "fl_lt NaN _ = False"
| "fl_lt _ NaN = False"
| "fl_lt (Fin x) (Fin y) = (x < y)"
| "fl_lt _ NInf = False"
| "fl_lt NInf _ = True"
| "fl_lt PInf _ = False"
| "fl_lt (Fin x) PInf = True"

fun fl_eq :: "fl \<Rightarrow> fl \<Rightarrow> bool" where
  "fl_eq NaN _ = False"
| "fl_eq _ NaN = False"
| "fl_eq x y = (x = y)"

definition fl_le :: "fl \<Rightarrow> fl \<Rightarrow> bool" where
  "fl_le x y = (fl_lt x y \<or> fl_eq x y)"

definition fl_gt :: "fl \<Rightarrow> fl \<Rightarrow> bool" where
  "fl_gt x y = fl_lt y x"

definition fl_pow2 :: "fl \<Rightarrow> fl" where
  "fl_pow2 x = fl_mul x x"

section \<open>Arrays\<close>

text \<open>
  A two-dimensional numpy array of shape \<open>(N, M)\<close>: \<open>M\<close> is \<open>ncols\<close> (it is part of the
  shape also when there is no row), the rows are lists. An array is rectangular, which
  \<open>wf_table\<close> says. The argument of the constructor is a one-dimensional or a
  two-dimensional array.
\<close>

record table =
  ncols :: nat
  rows :: "fl list list"

definition wf_table :: "table \<Rightarrow> bool" where
  "wf_table t = list_all (\<lambda>r. length r = ncols t) (rows t)"

datatype ndarray = Arr1 "fl list" | Arr2 table

fun wf_ndarray :: "ndarray \<Rightarrow> bool" where
  "wf_ndarray (Arr1 xs) = True"
| "wf_ndarray (Arr2 t) = wf_table t"

text \<open>\<open>np.expand_dims(data, axis=0)\<close> on a vector of length \<open>M\<close>: shape \<open>(1, M)\<close>.\<close>

definition expand_dims :: "fl list \<Rightarrow> table" where
  "expand_dims xs = \<lparr>ncols = length xs, rows = [xs]\<rparr>"

text \<open>Lines 67 and 68: a one-dimensional input becomes a table of one row.\<close>

definition as_table :: "ndarray \<Rightarrow> table" where
  "as_table data = (case data of Arr1 xs \<Rightarrow> expand_dims xs | Arr2 t \<Rightarrow> t)"

text \<open>\<open>np.where(cond)[0]\<close>: the indices where the condition holds, ascending.\<close>

definition np_where :: "bool list \<Rightarrow> nat list" where
  "np_where cond = filter (\<lambda>i. cond ! i) [0..<length cond]"

text \<open>\<open>g.cumsum()\<close>: the running totals.\<close>

fun cumsum_from :: "fl \<Rightarrow> fl list \<Rightarrow> fl list" where
  "cumsum_from acc [] = []"
| "cumsum_from acc (x # xs) = fl_add acc x # cumsum_from (fl_add acc x) xs"

definition cumsum :: "fl list \<Rightarrow> fl list" where
  "cumsum g = cumsum_from (Fin 0) g"

text \<open>\<open>np.dot\<close> of two vectors: the sum of the products.\<close>

definition np_dot :: "fl list \<Rightarrow> fl list \<Rightarrow> fl" where
  "np_dot xs ys = foldl fl_add (Fin 0) (map2 fl_mul xs ys)"

text \<open>\<open>(row == other).all()\<close>: every entry compares equal.\<close>

definition row_eq :: "fl list \<Rightarrow> fl list \<Rightarrow> bool" where
  "row_eq r s = list_all2 fl_eq r s"

text \<open>
  \<open>sorted(schemeUniqueInd)\<close>, where \<open>schemeUniqueInd\<close> comes from \<open>np.unique\<close> with
  \<open>return_index=True\<close> on the rows seen as records: the index of the first occurrence
  of each distinct row, ascending. Records are compared field by field with \<open>==\<close>, so
  a row that holds a NaN is equal to no row and is its own first occurrence.
\<close>

definition unique_index_sorted :: "fl list list \<Rightarrow> nat list" where
  "unique_index_sorted tmp =
     filter (\<lambda>i. list_all (\<lambda>j. \<not> row_eq (tmp ! j) (tmp ! i)) [0..<i]) [0..<length tmp]"

section \<open>The scheme\<close>

datatype error = UnrecognizedFormat | ZeroDivisionError

record shell =
  shell_b :: fl
  shell_G :: "fl option"
  shell_Delta :: "fl option"
  shell_delta :: "fl option"
  shell_TE :: "fl option"
  shell_wf :: "fl list option"
  shell_idx :: "nat list"
  shell_grad :: "fl list list"

record scheme =
  raw :: table
  version :: nat
  b :: "fl list"
  b0_thr :: fl
  b0_idx :: "nat list"
  b0_count :: nat
  dwi_idx :: "nat list"
  dwi_count :: nat
  shells :: "shell list"

text \<open>
  \<open>compute1D_b(g, TE=0.100, unit='usual')\<close>. \<open>TE / len(g)\<close> on an empty waveform
  raises ZeroDivisionError when \<open>TE\<close> is a Python float, as the default is; inside
  \<open>load_from_table\<close> the waveform has at least four samples.
\<close>

definition compute1D_b :: "fl list \<Rightarrow> fl \<Rightarrow> string \<Rightarrow> error + fl" where
  "compute1D_b g TE unit =
     (if length g = 0 then Inl ZeroDivisionError
      else
        let dt = fl_div TE (Fin (real (length g)));
            gamma = Fin 267519870;
            q = map (\<lambda>c. fl_mul (fl_mul c dt) gamma) (cumsum g);
            bq = fl_mul (np_dot q q) dt
        in if unit = ''usual'' then Inr (fl_div bq (Fin 1000000))
           else if unit = ''SI'' then Inr bq
           else Inr bq)"

text \<open>The defaults of the two optional arguments.\<close>

definition compute1D_b_default :: "fl list \<Rightarrow> error + fl" where
  "compute1D_b_default g = compute1D_b g (Fin (1 / 10)) ''usual''"

definition compute1D_b_TE :: "fl list \<Rightarrow> fl \<Rightarrow> error + fl" where
  "compute1D_b_TE g TE = compute1D_b g TE ''usual''"

text \<open>A list comprehension whose body may raise: the first error, or all the values.\<close>

fun collect :: "('e + 'a) list \<Rightarrow> 'e + 'a list" where
  "collect [] = Inr []"
| "collect (x # xs) =
     (case x of
        Inl e \<Rightarrow> Inl e
      | Inr v \<Rightarrow> (case collect xs of Inl e \<Rightarrow> Inl e | Inr vs \<Rightarrow> Inr (v # vs)))"

text \<open>Line 81, for one row: the Stejskal-Tanner b-value from columns 3, 4 and 5.\<close>

definition stejskal_tanner_b :: "fl list \<Rightarrow> fl" where
  "stejskal_tanner_b r =
     fl_mul
       (fl_mul (fl_pow2 (fl_mul (fl_mul (Fin 267513000) (r ! 3)) (r ! 5)))
               (fl_sub (r ! 4) (fl_div (r ! 5) (Fin 3))))
       (Fin (1 / 1000000))"

text \<open>
  Lines 76 to 86: the version and the b-values from the column count.
  Modelled from the spec: \<open>ERROR\<close> of \<open>amico.util\<close> is not among the sources; by the
  spec the construction fails there with \<open>UnrecognizedFormat\<close> and gives no object.
\<close>

definition set_b :: "table \<Rightarrow> error + nat \<times> fl list" where
  "set_b t =
     (if ncols t = 4 then Inr (0, map (\<lambda>r. r ! 3) (rows t))
      else if ncols t = 7 then Inr (1, map stejskal_tanner_b (rows t))
      else if ncols t > 7 then
        (case collect (map (\<lambda>r. compute1D_b_TE (drop 4 r) (r ! 3)) (rows t)) of
           Inl e \<Rightarrow> Inl e
         | Inr bs \<Rightarrow> Inr (2, bs))
      else Inl UnrecognizedFormat)"

text \<open>
  Lines 96 and 97: the rows whose second entry is negative get their first three
  entries negated, in place. The right-hand side is read before the assignment.
\<close>

definition normalize_directions :: "fl list list \<Rightarrow> fl list list" where
  "normalize_directions rws =
     (let idx = np_where (map (\<lambda>r. fl_lt (r ! 1) (Fin 0)) rws);
          neg = map (\<lambda>i. map fl_neg (take 3 (rws ! i))) idx
      in fold (\<lambda>(i, v) rs. rs[i := v @ drop 3 (rs ! i)]) (zip idx neg) rws)"

text \<open>Lines 110 to 131: the shell of one distinct descriptor row \<open>u\<close> with b-value \<open>bu\<close>.\<close>

definition make_shell :: "nat \<Rightarrow> fl list list \<Rightarrow> fl list list \<Rightarrow> fl list \<Rightarrow> fl \<Rightarrow> shell" where
  "make_shell ver rws tmp u bu =
     (let idx = np_where (map (\<lambda>d. row_eq d u) tmp)
      in \<lparr>shell_b = bu,
          shell_G = (if ver = 0 then None else if ver = 1 then Some (u ! 0) else None),
          shell_Delta = (if ver = 0 then None else if ver = 1 then Some (u ! 1) else None),
          shell_delta = (if ver = 0 then None else if ver = 1 then Some (u ! 2) else None),
          shell_TE = (if ver = 0 then None else if ver = 1 then Some (u ! 3) else Some (u ! 0)),
          shell_wf = (if ver = 0 then None else if ver = 1 then None else Some (drop 1 u)),
          shell_idx = idx,
          shell_grad = map (\<lambda>i. take 3 (rws ! i)) idx\<rparr>)"

text \<open>Lines 100 to 132: the shells, in the order of \<open>schemeUnique\<close>.\<close>

definition make_shells :: "nat \<Rightarrow> fl list list \<Rightarrow> fl list \<Rightarrow> fl \<Rightarrow> shell list" where
  "make_shells ver rws bs thr =
     (let tmp = map (drop 3) rws;
          ind = unique_index_sorted tmp;
          schemeUnique = map (\<lambda>i. tmp ! i) ind;
          bUnique = map (\<lambda>i. bs ! i) ind
      in map (\<lambda>i. make_shell ver rws tmp (schemeUnique ! i) (bUnique ! i))
           (filter (\<lambda>i. \<not> fl_le (bUnique ! i) thr) [0..<length schemeUnique]))"

text \<open>
  \<open>load_from_table(data, b0_thr)\<close>. The result's \<open>raw\<close> is the array that was passed
  in (or the view of it with one row): the normalisation writes into the caller's array.
\<close>

definition load_from_table :: "ndarray \<Rightarrow> fl \<Rightarrow> error + scheme" where
  "load_from_table data thr =
     (let t = as_table data
      in case set_b t of
           Inl e \<Rightarrow> Inl e
         | Inr (ver, bs) \<Rightarrow>
             (let i0 = np_where (map (\<lambda>v. fl_le v thr) bs);
                  i1 = np_where (map (\<lambda>v. fl_gt v thr) bs);
                  rws = normalize_directions (rows t)
              in Inr \<lparr>raw = \<lparr>ncols = ncols t, rows = rws\<rparr>,
                      version = ver,
                      b = bs,
                      b0_thr = thr,
                      b0_idx = i0,
                      b0_count = length i0,
                      dwi_idx = i1,
                      dwi_count = length i1,
                      shells = make_shells ver rws bs thr\<rparr>))"

text \<open>The constructor on an array; the default threshold is 0.\<close>

definition Scheme :: "ndarray \<Rightarrow> fl \<Rightarrow> error + scheme" where
  "Scheme data thr = load_from_table data thr"

definition nS :: "scheme \<Rightarrow> nat" where
  "nS self = b0_count self + dwi_count self"

text \<open>
  \<open>to_version_1\<close>. The result is \<open>Some\<close> of what the method returns, or \<open>None\<close> when
  it falls through every branch and returns Python's \<open>None\<close>; the second component is the
  state of \<open>self\<close> after the call (the method assigns no attribute). In the second branch
  the new scheme is built by the constructor with its default threshold 0.
\<close>

definition to_version_1 :: "scheme \<Rightarrow> (error + scheme) option \<times> scheme" where
  "to_version_1 self =
     (if version self = 1 then (Some (Inr self), self)
      else if version self = 2 then
        (let gamma = Fin 267513000;
             delta = Fin (10 / 1000);
             Delta = Fin (25 / 1000);
             gMax = map (\<lambda>v. fl_sqrt (fl_div v
                      (fl_mul (fl_mul (fl_mul (fl_mul gamma gamma) delta) delta)
                              (fl_sub Delta (fl_div delta (Fin 3)))))) (b self);
             dataBis = map (\<lambda>i. take 3 (rows (raw self) ! i)
                                @ [gMax ! i, Delta, delta, rows (raw self) ! i ! 3])
                         [0..<length (rows (raw self))]
         in (Some (Scheme (Arr2 \<lparr>ncols = 7, rows = dataBis\<rparr>) (Fin 0)), self))
      else (None, self))"

section \<open>Serialisation\<close>

text \<open>\<open>str\<close> of a non-negative Python integer: its decimal digits.\<close>

fun str_nat :: "nat \<Rightarrow> string" where
  "str_nat n = (if n < 10 then [char_of (48 + n)]
                else str_nat (n div 10) @ [char_of (48 + n mod 10)])"

declare str_nat.simps [simp del]

definition newline :: string where
  "newline = [CHR 0x0A]"

text \<open>
  \<open>write_Camino_wf\<close>. The file is the text written so far. \<open>str\<close> of a float and
  \<open>round(x, 5)\<close> are the language's own; they are the parameters \<open>str_float\<close> and
  \<open>round5\<close>.
\<close>

definition write_Camino_wf ::
  "(fl \<Rightarrow> string) \<Rightarrow> (fl \<Rightarrow> fl) \<Rightarrow> nat \<Rightarrow> fl \<Rightarrow> fl list \<Rightarrow> fl list \<Rightarrow> fl list \<Rightarrow> string \<Rightarrow> string" where
  "write_Camino_wf str_float round5 nb_steps TE Gx Gy Gz schemefile =
     (let dt = fl_div TE (Fin (real nb_steps));
          f1 = schemefile @ (str_nat nb_steps @ '' '' @ str_float dt @ '' '');
          f2 = fold (\<lambda>i f. ((f @ (str_float (round5 (Gx ! i)) @ '' ''))
                               @ (str_float (round5 (Gy ! i)) @ '' ''))
                               @ (str_float (round5 (Gz ! i)) @ '' ''))
                 [0..<nb_steps] f1
      in f2 @ newline)"

text \<open>\<open>' '.join\<close>.\<close>

fun join_space :: "string list \<Rightarrow> string" where
  "join_space [] = []"
| "join_space [x] = x"
| "join_space (x # y # ys) = x @ '' '' @ join_space (y # ys)"

text \<open>
  \<open>write_Camino_schemefile\<close>: the text of the file at \<open>schemefile_path\<close> after the
  call, or \<open>None\<close> when no file is opened. \<open>np.savetxt\<close> writes the header, then each
  row with the delimiter between its values; \<open>fmt_e\<close> is the format \<open>%15.8e\<close>.
\<close>

definition write_Camino_schemefile ::
  "(fl \<Rightarrow> string) \<Rightarrow> (fl \<Rightarrow> fl) \<Rightarrow> (fl \<Rightarrow> string) \<Rightarrow> scheme \<Rightarrow> string option" where
  "write_Camino_schemefile str_float round5 fmt_e self =
     (if version self = 1 then
        Some ((''VERSION: STEJSKALTANNER'' @ newline)
              @ concat (map (\<lambda>r. join_space (map fmt_e r) @ newline) (rows (raw self))))
      else if version self = 2 then
        Some (fold (\<lambda>i schemefile.
                (let g1D = drop 4 (rows (raw self) ! i);
                     x = rows (raw self) ! i ! 0;
                     y = rows (raw self) ! i ! 1;
                     z = rows (raw self) ! i ! 2;
                     TE = rows (raw self) ! i ! 3;
                     nb_steps = length g1D
                 in write_Camino_wf str_float round5 nb_steps TE
                      (map (fl_mul x) g1D) (map (fl_mul y) g1D) (map (fl_mul z) g1D) schemefile))
              [0..<length (rows (raw self))]
              (''VERSION: GRADIENT_WAVEFORM '' @ newline))
      else None)"

text \<open>
  The waveform file as the specification words it: a header line, then one line per row
  with the sample count, \<open>dt = TE / sample_count\<close> and, for each sample in order, the
  sample scaled by the row's x, y and z components, each rounded to 5 decimal places and
  followed by a space.
\<close>

definition spec_wf_line :: "(fl \<Rightarrow> string) \<Rightarrow> (fl \<Rightarrow> fl) \<Rightarrow> fl list \<Rightarrow> string" where
  "spec_wf_line str_float round5 r =
     str_nat (length r - 4) @ '' '' @ str_float (fl_div (r ! 3) (Fin (real (length r - 4)))) @ '' ''
     @ concat (map (\<lambda>g. str_float (round5 (fl_mul (r ! 0) g)) @ '' ''
                        @ str_float (round5 (fl_mul (r ! 1) g)) @ '' ''
                        @ str_float (round5 (fl_mul (r ! 2) g)) @ '' '') (drop 4 r))
     @ newline"

definition spec_wf_text :: "string \<Rightarrow> (fl \<Rightarrow> string) \<Rightarrow> (fl \<Rightarrow> fl) \<Rightarrow> fl list list \<Rightarrow> string" where
  "spec_wf_text header str_float round5 rws =
     header @ newline @ concat (map (spec_wf_line str_float round5) rws)"

section \<open>The waveform b-value over the reals\<close>

text \<open>
  The waveform b-value as the specification words it: \<open>dt = TE / L\<close>, \<open>q\<close> the running
  totals of \<open>g\<close> times \<open>dt\<close> times \<open>2.6751987e8\<close>, \<open>b_SI\<close> the sum of the squares of
  \<open>q\<close> times \<open>dt\<close>.
\<close>

definition spec_b_SI :: "real list \<Rightarrow> real \<Rightarrow> real" where
  "spec_b_SI g TE =
     (let dt = TE / real (length g)
      in (\<Sum>k<length g. ((\<Sum>j\<le>k. g ! j) * dt * 267519870)\<^sup>2) * dt)"

section \<open>Format detection\<close>

lemma collect_map_Inr:
  "\<forall>x \<in> set xs. \<exists>v. f x = Inr v \<Longrightarrow> collect (map f xs) = Inr (map (\<lambda>x. projr (f x)) xs)"
  by (induction xs) (fastforce split: sum.splits)+

lemma compute1D_b_Inr: "g \<noteq> [] \<Longrightarrow> \<exists>v. compute1D_b g TE u = Inr v"
  by (simp add: compute1D_b_def Let_def)

lemma set_b_4: "ncols t = 4 \<Longrightarrow> set_b t = Inr (0, map (\<lambda>r. r ! 3) (rows t))"
  by (simp add: set_b_def)

lemma set_b_7: "ncols t = 7 \<Longrightarrow> set_b t = Inr (1, map stejskal_tanner_b (rows t))"
  by (simp add: set_b_def)

lemma set_b_wf:
  assumes "wf_table t" "ncols t > 7"
  shows "set_b t = Inr (2, map (\<lambda>r. projr (compute1D_b_TE (drop 4 r) (r ! 3))) (rows t))"
proof -
  have "\<exists>v. compute1D_b_TE (drop 4 r) (r ! 3) = Inr v" if "r \<in> set (rows t)" for r
  proof -
    from that assms have "length r > 7" by (auto simp: wf_table_def list_all_iff)
    then have "drop 4 r \<noteq> []" by simp
    then show ?thesis unfolding compute1D_b_TE_def by (rule compute1D_b_Inr)
  qed
  then have "collect (map (\<lambda>r. compute1D_b_TE (drop 4 r) (r ! 3)) (rows t))
      = Inr (map (\<lambda>r. projr (compute1D_b_TE (drop 4 r) (r ! 3))) (rows t))"
    by (intro collect_map_Inr) blast
  with assms(2) show ?thesis by (simp add: set_b_def)
qed

lemma set_b_other:
  "ncols t \<noteq> 4 \<Longrightarrow> ncols t \<noteq> 7 \<Longrightarrow> \<not> ncols t > 7 \<Longrightarrow> set_b t = Inl UnrecognizedFormat"
  by (simp add: set_b_def)

lemma as_table_Arr2 [simp]: "as_table (Arr2 t) = t"
  by (simp add: as_table_def)

lemma as_table_Arr1 [simp]: "as_table (Arr1 xs) = \<lparr>ncols = length xs, rows = [xs]\<rparr>"
  by (simp add: as_table_def expand_dims_def)

lemma wf_as_table: "wf_ndarray data \<Longrightarrow> wf_table (as_table data)"
  by (cases data) (simp_all add: wf_table_def)

lemma load_from_table_Inr:
  "set_b (as_table data) = Inr (ver, bs) \<Longrightarrow>
   load_from_table data thr =
     Inr \<lparr>raw = \<lparr>ncols = ncols (as_table data), rows = normalize_directions (rows (as_table data))\<rparr>,
          version = ver,
          b = bs,
          b0_thr = thr,
          b0_idx = np_where (map (\<lambda>v. fl_le v thr) bs),
          b0_count = length (np_where (map (\<lambda>v. fl_le v thr) bs)),
          dwi_idx = np_where (map (\<lambda>v. fl_gt v thr) bs),
          dwi_count = length (np_where (map (\<lambda>v. fl_gt v thr) bs)),
          shells = make_shells ver (normalize_directions (rows (as_table data))) bs thr\<rparr>"
  by (simp add: load_from_table_def Let_def)

lemma load_from_table_Inl:
  "set_b (as_table data) = Inl e \<Longrightarrow> load_from_table data thr = Inl e"
  by (simp add: load_from_table_def)

lemma load_from_table_Arr1:
  "load_from_table (Arr1 xs) thr = load_from_table (Arr2 \<lparr>ncols = length xs, rows = [xs]\<rparr>) thr"
  by (simp add: load_from_table_def)

lemma load_from_table_set_b:
  "load_from_table data thr = Inr s \<Longrightarrow> set_b (as_table data) = Inr (version s, b s)"
  by (cases "set_b (as_table data)") (auto simp: load_from_table_def Let_def)

text \<open>
  C7. The column count \<open>M\<close> alone decides the format: \<open>M = 4\<close> gives version 0 (BVALUE),
  \<open>M = 7\<close> version 1 (STEJSKAL_TANNER), \<open>M > 7\<close> version 2 (WAVEFORM); every other
  \<open>M\<close> fails with \<open>UnrecognizedFormat\<close> and gives no scheme. A one-dimensional input of
  length \<open>M\<close> is loaded as the table with that single row.
\<close>

theorem format_from_column_count:
  assumes "wf_table t"
  shows "(ncols t = 4 \<longrightarrow> (\<exists>s. load_from_table (Arr2 t) thr = Inr s \<and> version s = 0))
       \<and> (ncols t = 7 \<longrightarrow> (\<exists>s. load_from_table (Arr2 t) thr = Inr s \<and> version s = 1))
       \<and> (ncols t > 7 \<longrightarrow> (\<exists>s. load_from_table (Arr2 t) thr = Inr s \<and> version s = 2))
       \<and> (ncols t \<noteq> 4 \<and> ncols t \<noteq> 7 \<and> \<not> ncols t > 7 \<longrightarrow>
            load_from_table (Arr2 t) thr = Inl UnrecognizedFormat)
       \<and> load_from_table (Arr1 xs) thr =
            load_from_table (Arr2 \<lparr>ncols = length xs, rows = [xs]\<rparr>) thr"
proof -
  have 1: "ncols t = 4 \<longrightarrow> (\<exists>s. load_from_table (Arr2 t) thr = Inr s \<and> version s = 0)"
    using load_from_table_Inr[of "Arr2 t" 0 _ thr] set_b_4[of t] by auto
  have 2: "ncols t = 7 \<longrightarrow> (\<exists>s. load_from_table (Arr2 t) thr = Inr s \<and> version s = 1)"
    using load_from_table_Inr[of "Arr2 t" 1 _ thr] set_b_7[of t] by auto
  have 3: "ncols t > 7 \<longrightarrow> (\<exists>s. load_from_table (Arr2 t) thr = Inr s \<and> version s = 2)"
    using load_from_table_Inr[of "Arr2 t" 2 _ thr] set_b_wf[OF assms] by auto
  have 4: "ncols t \<noteq> 4 \<and> ncols t \<noteq> 7 \<and> \<not> ncols t > 7 \<longrightarrow>
      load_from_table (Arr2 t) thr = Inl UnrecognizedFormat"
    using load_from_table_Inl[of "Arr2 t" UnrecognizedFormat thr] set_b_other[of t] by auto
  from 1 2 3 4 load_from_table_Arr1 show ?thesis by blast
qed

theorem format_from_column_count_witness:
  "wf_table \<lparr>ncols = 4, rows = [[Fin 1, Fin 0, Fin 0, Fin 1000]]\<rparr>
   \<and> (\<exists>s. load_from_table (Arr2 \<lparr>ncols = 4, rows = [[Fin 1, Fin 0, Fin 0, Fin 1000]]\<rparr>) (Fin 0) = Inr s
          \<and> version s = 0)
   \<and> wf_table \<lparr>ncols = 7, rows = []\<rparr>
   \<and> (\<exists>s. load_from_table (Arr2 \<lparr>ncols = 7, rows = []\<rparr>) (Fin 0) = Inr s \<and> version s = 1)
   \<and> wf_table \<lparr>ncols = 9, rows = []\<rparr>
   \<and> (\<exists>s. load_from_table (Arr2 \<lparr>ncols = 9, rows = []\<rparr>) (Fin 0) = Inr s \<and> version s = 2)
   \<and> wf_table \<lparr>ncols = 5, rows = [[Fin 1, Fin 0, Fin 0, Fin 1000, Fin 0]]\<rparr>
   \<and> load_from_table (Arr2 \<lparr>ncols = 5, rows = [[Fin 1, Fin 0, Fin 0, Fin 1000, Fin 0]]\<rparr>) (Fin 0)
        = Inl UnrecognizedFormat
   \<and> load_from_table (Arr1 [Fin 1, Fin 0, Fin 0]) (Fin 0)
        = load_from_table (Arr2 \<lparr>ncols = 3, rows = [[Fin 1, Fin 0, Fin 0]]\<rparr>) (Fin 0)"
  using format_from_column_count[of "\<lparr>ncols = 4, rows = [[Fin 1, Fin 0, Fin 0, Fin 1000]]\<rparr>" "Fin 0" "[Fin 1, Fin 0, Fin 0]"]
        format_from_column_count[of "\<lparr>ncols = 7, rows = []\<rparr>" "Fin 0"]
        format_from_column_count[of "\<lparr>ncols = 9, rows = []\<rparr>" "Fin 0"]
        format_from_column_count[of "\<lparr>ncols = 5, rows = [[Fin 1, Fin 0, Fin 0, Fin 1000, Fin 0]]\<rparr>" "Fin 0"]
  by (simp add: wf_table_def numeral_3_eq_3)

section \<open>Classification\<close>

lemma set_np_where: "set (np_where cs) = {i. i < length cs \<and> cs ! i}"
  by (auto simp: np_where_def)

lemma distinct_np_where: "distinct (np_where cs)"
  by (simp add: np_where_def)

lemma sorted_np_where: "sorted_wrt (<) (np_where cs)"
  by (simp add: np_where_def sorted_wrt_filter)

lemma collect_length: "collect xs = Inr vs \<Longrightarrow> length vs = length xs"
  by (induction xs arbitrary: vs) (auto split: sum.splits)

lemma set_b_length: "set_b t = Inr (ver, bs) \<Longrightarrow> length bs = length (rows t)"
  by (auto simp: set_b_def split: if_splits sum.splits dest: collect_length)

lemma length_fold_update:
  "length (fold (\<lambda>(i, v) rs. rs[i := f v (rs ! i)]) ps rws) = length rws"
  by (induction ps arbitrary: rws) (auto split: prod.splits)

lemma length_normalize_directions: "length (normalize_directions rws) = length rws"
  unfolding normalize_directions_def Let_def by (rule length_fold_update[where f = "\<lambda>v r. v @ drop 3 r"])

lemma fl_le_gt_exclusive: "\<not> (fl_le x y \<and> fl_gt x y)"
  by (cases x; cases y) (auto simp: fl_le_def fl_gt_def)

lemma fl_le_or_gt: "x \<noteq> NaN \<Longrightarrow> y \<noteq> NaN \<Longrightarrow> fl_le x y \<or> fl_gt x y"
  by (cases x; cases y) (auto simp: fl_le_def fl_gt_def)

lemma fl_le_iff_not_gt: "x \<noteq> NaN \<Longrightarrow> y \<noteq> NaN \<Longrightarrow> fl_le x y \<longleftrightarrow> \<not> fl_gt x y"
  using fl_le_gt_exclusive fl_le_or_gt by blast

lemma load_from_table_fields:
  assumes "load_from_table data thr = Inr s"
  shows "b0_idx s = np_where (map (\<lambda>v. fl_le v thr) (b s))"
    and "dwi_idx s = np_where (map (\<lambda>v. fl_gt v thr) (b s))"
    and "b0_count s = length (b0_idx s)"
    and "dwi_count s = length (dwi_idx s)"
    and "raw s = \<lparr>ncols = ncols (as_table data),
                  rows = normalize_directions (rows (as_table data))\<rparr>"
    and "shells s =
           make_shells (version s) (normalize_directions (rows (as_table data))) (b s) thr"
    and "length (b s) = length (rows (as_table data))"
    and "b0_thr s = thr"
proof -
  define t where "t = as_table data"
  have sb: "set_b t = Inr (version s, b s)"
    unfolding t_def using assms by (rule load_from_table_set_b)
  from load_from_table_Inr[OF sb[unfolded t_def], of thr] assms
  have s: "s = \<lparr>raw = \<lparr>ncols = ncols t, rows = normalize_directions (rows t)\<rparr>,
          version = version s,
          b = b s,
          b0_thr = thr,
          b0_idx = np_where (map (\<lambda>v. fl_le v thr) (b s)),
          b0_count = length (np_where (map (\<lambda>v. fl_le v thr) (b s))),
          dwi_idx = np_where (map (\<lambda>v. fl_gt v thr) (b s)),
          dwi_count = length (np_where (map (\<lambda>v. fl_gt v thr) (b s))),
          shells = make_shells (version s) (normalize_directions (rows t)) (b s) thr\<rparr>"
    by (simp add: t_def)
  show "b0_idx s = np_where (map (\<lambda>v. fl_le v thr) (b s))" by (subst s) simp
  show "dwi_idx s = np_where (map (\<lambda>v. fl_gt v thr) (b s))" by (subst s) simp
  show "b0_count s = length (b0_idx s)" by (subst (1 2) s) simp
  show "dwi_count s = length (dwi_idx s)" by (subst (1 2) s) simp
  show "raw s = \<lparr>ncols = ncols (as_table data),
                  rows = normalize_directions (rows (as_table data))\<rparr>"
    by (subst s) (simp add: t_def)
  show "shells s =
          make_shells (version s) (normalize_directions (rows (as_table data))) (b s) thr"
    by (subst s) (simp add: t_def)
  show "length (b s) = length (rows (as_table data))"
    using sb unfolding t_def by (rule set_b_length)
  show "b0_thr s = thr" by (subst s) simp
qed

text \<open>
  C6 (as amended). For every constructed scheme with \<open>N\<close> rows and threshold \<open>b0_thr\<close>: the
  baseline indices are the \<open>i\<close> with \<open>b[i] <= b0_thr\<close>, the weighted indices the \<open>i\<close>
  with \<open>b[i] > b0_thr\<close>, the two sets are disjoint, and the two counts are their sizes.
  When neither the threshold nor any b-value is NaN, the two sets cover \<open>[0, N)\<close> and
  \<open>nS\<close> equals \<open>N\<close>.
\<close>

theorem classification_partition:
  assumes "load_from_table data thr = Inr s"
  shows "set (b0_idx s) = {i. i < length (rows (raw s)) \<and> fl_le (b s ! i) thr}
       \<and> set (dwi_idx s) = {i. i < length (rows (raw s)) \<and> fl_gt (b s ! i) thr}
       \<and> set (b0_idx s) \<inter> set (dwi_idx s) = {}
       \<and> b0_count s = card (set (b0_idx s))
       \<and> dwi_count s = card (set (dwi_idx s))
       \<and> (thr \<noteq> NaN \<and> NaN \<notin> set (b s) \<longrightarrow>
            set (b0_idx s) \<union> set (dwi_idx s) = {..<length (rows (raw s))}
            \<and> nS s = length (rows (raw s)))"
proof -
  note f = load_from_table_fields[OF assms]
  have len: "length (rows (raw s)) = length (b s)"
    by (simp add: f(5) f(7) length_normalize_directions)
  have 1: "set (b0_idx s) = {i. i < length (rows (raw s)) \<and> fl_le (b s ! i) thr}"
    by (auto simp: f(1) len set_np_where)
  have 2: "set (dwi_idx s) = {i. i < length (rows (raw s)) \<and> fl_gt (b s ! i) thr}"
    by (auto simp: f(2) len set_np_where)
  have 3: "set (b0_idx s) \<inter> set (dwi_idx s) = {}"
    unfolding 1 2 using fl_le_gt_exclusive by auto
  have 4: "b0_count s = card (set (b0_idx s))"
    by (simp add: f(3)) (simp add: f(1) distinct_card distinct_np_where)
  have 5: "dwi_count s = card (set (dwi_idx s))"
    by (simp add: f(4)) (simp add: f(2) distinct_card distinct_np_where)
  have 6: "set (b0_idx s) \<union> set (dwi_idx s) = {..<length (rows (raw s))}
            \<and> nS s = length (rows (raw s))" if n: "thr \<noteq> NaN" "NaN \<notin> set (b s)"
  proof -
    have "fl_le (b s ! i) thr \<or> fl_gt (b s ! i) thr" if "i < length (b s)" for i
    proof -
      from that n(2) have "b s ! i \<noteq> NaN" by (metis nth_mem)
      with n(1) show ?thesis by (simp add: fl_le_or_gt)
    qed
    then have u: "set (b0_idx s) \<union> set (dwi_idx s) = {..<length (rows (raw s))}"
      unfolding 1 2 len by auto
    have "nS s = card (set (b0_idx s)) + card (set (dwi_idx s))"
      by (simp add: nS_def 4 5)
    also have "\<dots> = card (set (b0_idx s) \<union> set (dwi_idx s))"
      using 3 by (simp add: card_Un_disjoint)
    also have "\<dots> = length (rows (raw s))" by (simp add: u)
    finally show ?thesis using u by simp
  qed
  from 1 2 3 4 5 6 show ?thesis by blast
qed

theorem classification_partition_witness:
  "\<exists>s. load_from_table
          (Arr2 \<lparr>ncols = 4, rows = [[Fin 1, Fin 0, Fin 0, Fin 1000], [Fin 0, Fin 1, Fin 0, Fin 0],
                                    [Fin 0, Fin (- 1), Fin 0, Fin 0]]\<rparr>) (Fin 0) = Inr s
      \<and> Fin 0 \<noteq> NaN \<and> NaN \<notin> set (b s)
      \<and> b0_idx s = [1, 2] \<and> dwi_idx s = [0]
      \<and> set (b0_idx s) \<union> set (dwi_idx s) = {..<length (rows (raw s))}
      \<and> nS s = length (rows (raw s)) \<and> nS s = 3"
proof -
  define s0 where "s0 = projr (load_from_table
          (Arr2 \<lparr>ncols = 4, rows = [[Fin 1, Fin 0, Fin 0, Fin 1000], [Fin 0, Fin 1, Fin 0, Fin 0],
                                    [Fin 0, Fin (- 1), Fin 0, Fin 0]]\<rparr>) (Fin 0))"
  have h: "load_from_table
          (Arr2 \<lparr>ncols = 4, rows = [[Fin 1, Fin 0, Fin 0, Fin 1000], [Fin 0, Fin 1, Fin 0, Fin 0],
                                    [Fin 0, Fin (- 1), Fin 0, Fin 0]]\<rparr>) (Fin 0) = Inr s0"
    unfolding s0_def by code_simp
  have n: "Fin 0 \<noteq> NaN \<and> NaN \<notin> set (b s0)"
    unfolding s0_def by code_simp
  have i: "b0_idx s0 = [1, 2] \<and> dwi_idx s0 = [0] \<and> nS s0 = 3"
    unfolding s0_def by code_simp
  from classification_partition[OF h] n
  have "set (b0_idx s0) \<union> set (dwi_idx s0) = {..<length (rows (raw s0))}
      \<and> nS s0 = length (rows (raw s0))"
    by blast
  with h n i show ?thesis by blast
qed

text \<open>
  C6 as stated fails on a NaN b-value: the row is neither baseline nor weighted, and
  \<open>nS\<close> is 0 for a table of one row.
\<close>

theorem classification_nan_counterexample:
  "\<not> isl (load_from_table (Arr2 \<lparr>ncols = 4, rows = [[Fin 1, Fin 0, Fin 0, NaN]]\<rparr>) (Fin 0))
   \<and> b (projr (load_from_table (Arr2 \<lparr>ncols = 4, rows = [[Fin 1, Fin 0, Fin 0, NaN]]\<rparr>) (Fin 0))) = [NaN]
   \<and> b0_idx (projr (load_from_table (Arr2 \<lparr>ncols = 4, rows = [[Fin 1, Fin 0, Fin 0, NaN]]\<rparr>) (Fin 0))) = []
   \<and> dwi_idx (projr (load_from_table (Arr2 \<lparr>ncols = 4, rows = [[Fin 1, Fin 0, Fin 0, NaN]]\<rparr>) (Fin 0))) = []
   \<and> nS (projr (load_from_table (Arr2 \<lparr>ncols = 4, rows = [[Fin 1, Fin 0, Fin 0, NaN]]\<rparr>) (Fin 0))) = 0
   \<and> length (rows (raw (projr (load_from_table (Arr2 \<lparr>ncols = 4, rows = [[Fin 1, Fin 0, Fin 0, NaN]]\<rparr>) (Fin 0))))) = 1"
  by code_simp

section \<open>Sign normalisation\<close>

lemma fold_update_nth:
  assumes "distinct js" "\<forall>j \<in> set js. j < length rws" "k < length rws"
  shows "fold (\<lambda>(i, v) rs. rs[i := v @ drop 3 (rs ! i)]) (map (\<lambda>i. (i, g i)) js) rws ! k
         = (if k \<in> set js then g k @ drop 3 (rws ! k) else rws ! k)"
  using assms
proof (induction js arbitrary: rws)
  case Nil
  then show ?case by simp
next
  case (Cons j js)
  let ?rws = "rws[j := g j @ drop 3 (rws ! j)]"
  have "fold (\<lambda>(i, v) rs. rs[i := v @ drop 3 (rs ! i)]) (map (\<lambda>i. (i, g i)) (j # js)) rws ! k
      = fold (\<lambda>(i, v) rs. rs[i := v @ drop 3 (rs ! i)]) (map (\<lambda>i. (i, g i)) js) ?rws ! k"
    by simp
  also have "\<dots> = (if k \<in> set js then g k @ drop 3 (?rws ! k) else ?rws ! k)"
    using Cons.prems by (intro Cons.IH) auto
  also have "\<dots> = (if k \<in> set (j # js) then g k @ drop 3 (rws ! k) else rws ! k)"
    using Cons.prems by (auto simp: nth_list_update)
  finally show ?case .
qed

lemma normalize_directions_nth:
  assumes "k < length rws"
  shows "normalize_directions rws ! k
         = (if fl_lt (rws ! k ! 1) (Fin 0) then map fl_neg (take 3 (rws ! k)) @ drop 3 (rws ! k)
            else rws ! k)"
proof -
  let ?idx = "np_where (map (\<lambda>r. fl_lt (r ! 1) (Fin 0)) rws)"
  have z: "zip ?idx (map (\<lambda>i. map fl_neg (take 3 (rws ! i))) ?idx)
         = map (\<lambda>i. (i, map fl_neg (take 3 (rws ! i)))) ?idx"
    by (simp add: zip_map2 zip_same_conv_map)
  have "normalize_directions rws ! k
      = (if k \<in> set ?idx then map fl_neg (take 3 (rws ! k)) @ drop 3 (rws ! k) else rws ! k)"
    unfolding normalize_directions_def Let_def z
    using assms by (intro fold_update_nth) (auto simp: distinct_np_where set_np_where)
  then show ?thesis using assms by (simp add: set_np_where)
qed

lemma fl_neg_pos: "fl_lt x (Fin 0) \<Longrightarrow> fl_lt (Fin 0) (fl_neg x)"
  by (cases x) auto

lemma not_lt_le: "x \<noteq> NaN \<Longrightarrow> \<not> fl_lt x (Fin 0) \<Longrightarrow> fl_le (Fin 0) x"
  by (cases x) (auto simp: fl_le_def)

lemma set_b_ncols: "set_b t = Inr (ver, bs) \<Longrightarrow> ncols t \<ge> 4"
  by (auto simp: set_b_def split: if_splits)

text \<open>
  C8 (as amended). During construction, every row whose column-1 (Y) value is negative has
  its columns 0 to 2 negated; every other row is left untouched; no column other than 0
  to 2 is changed. Afterwards no stored row has a negative Y, and the stored Y is
  non-negative whenever the input Y is not NaN.
\<close>

theorem normalization_frame:
  assumes "load_from_table data thr = Inr s" "wf_ndarray data" "i < length (rows (as_table data))"
  shows "length (rows (raw s)) = length (rows (as_table data))
       \<and> (fl_lt (rows (as_table data) ! i ! 1) (Fin 0) \<longrightarrow>
            take 3 (rows (raw s) ! i) = map fl_neg (take 3 (rows (as_table data) ! i)))
       \<and> (\<not> fl_lt (rows (as_table data) ! i ! 1) (Fin 0) \<longrightarrow>
            rows (raw s) ! i = rows (as_table data) ! i)
       \<and> drop 3 (rows (raw s) ! i) = drop 3 (rows (as_table data) ! i)
       \<and> \<not> fl_lt (rows (raw s) ! i ! 1) (Fin 0)
       \<and> (rows (as_table data) ! i ! 1 \<noteq> NaN \<longrightarrow> fl_le (Fin 0) (rows (raw s) ! i ! 1))"
proof -
  define t where "t = as_table data"
  define r where "r = rows t ! i"
  note f = load_from_table_fields[OF assms(1)]
  have rw: "rows (raw s) = normalize_directions (rows t)" by (simp add: f(5) t_def)
  have wf: "wf_table t" unfolding t_def using assms(2) by (rule wf_as_table)
  have "ncols t \<ge> 4" using load_from_table_set_b[OF assms(1)] set_b_ncols t_def by metis
  moreover have "r \<in> set (rows t)" using assms(3) by (simp add: r_def t_def)
  ultimately have lr: "length r \<ge> 4" using wf by (auto simp: wf_table_def list_all_iff)
  have n: "rows (raw s) ! i = (if fl_lt (r ! 1) (Fin 0) then map fl_neg (take 3 r) @ drop 3 r else r)"
    unfolding rw r_def using assms(3) by (simp add: normalize_directions_nth t_def)
  have 1: "length (rows (raw s)) = length (rows t)" by (simp add: rw length_normalize_directions)
  have 2: "fl_lt (r ! 1) (Fin 0) \<longrightarrow> take 3 (rows (raw s) ! i) = map fl_neg (take 3 r)"
    using lr by (simp add: n)
  have 3: "\<not> fl_lt (r ! 1) (Fin 0) \<longrightarrow> rows (raw s) ! i = r" by (simp add: n)
  have 4: "drop 3 (rows (raw s) ! i) = drop 3 r" using lr by (simp add: n)
  have y: "rows (raw s) ! i ! 1 = (if fl_lt (r ! 1) (Fin 0) then fl_neg (r ! 1) else r ! 1)"
    using lr by (simp add: n nth_append)
  have 5: "\<not> fl_lt (rows (raw s) ! i ! 1) (Fin 0)"
    unfolding y by (cases "r ! 1") auto
  have 6: "r ! 1 \<noteq> NaN \<longrightarrow> fl_le (Fin 0) (rows (raw s) ! i ! 1)"
    unfolding y by (cases "r ! 1") (auto simp: fl_le_def)
  from 1 2 3 4 5 6 show ?thesis unfolding r_def t_def by blast
qed

theorem normalization_frame_witness:
  "\<exists>s. load_from_table
          (Arr2 \<lparr>ncols = 4, rows = [[Fin 1, Fin 0, Fin 0, Fin 1000], [Fin 0, Fin 1, Fin 0, Fin 0],
                                    [Fin 0, Fin (- 1), Fin 0, Fin 0]]\<rparr>) (Fin 0) = Inr s
      \<and> wf_ndarray (Arr2 \<lparr>ncols = 4, rows = [[Fin 1, Fin 0, Fin 0, Fin 1000], [Fin 0, Fin 1, Fin 0, Fin 0],
                                    [Fin 0, Fin (- 1), Fin 0, Fin 0]]\<rparr>)
      \<and> 2 < length (rows (as_table (Arr2 \<lparr>ncols = 4, rows = [[Fin 1, Fin 0, Fin 0, Fin 1000], [Fin 0, Fin 1, Fin 0, Fin 0],
                                    [Fin 0, Fin (- 1), Fin 0, Fin 0]]\<rparr>)))
      \<and> fl_lt (rows (as_table (Arr2 \<lparr>ncols = 4, rows = [[Fin 1, Fin 0, Fin 0, Fin 1000], [Fin 0, Fin 1, Fin 0, Fin 0],
                                    [Fin 0, Fin (- 1), Fin 0, Fin 0]]\<rparr>)) ! 2 ! 1) (Fin 0)
      \<and> rows (as_table (Arr2 \<lparr>ncols = 4, rows = [[Fin 1, Fin 0, Fin 0, Fin 1000], [Fin 0, Fin 1, Fin 0, Fin 0],
                                    [Fin 0, Fin (- 1), Fin 0, Fin 0]]\<rparr>)) ! 2 ! 1 \<noteq> NaN
      \<and> take 3 (rows (raw s) ! 2) = [Fin 0, Fin 1, Fin 0]
      \<and> drop 3 (rows (raw s) ! 2) = [Fin 0]
      \<and> \<not> fl_lt (rows (raw s) ! 2 ! 1) (Fin 0)
      \<and> fl_le (Fin 0) (rows (raw s) ! 2 ! 1)
      \<and> \<not> fl_lt (rows (as_table (Arr2 \<lparr>ncols = 4, rows = [[Fin 1, Fin 0, Fin 0, Fin 1000], [Fin 0, Fin 1, Fin 0, Fin 0],
                                    [Fin 0, Fin (- 1), Fin 0, Fin 0]]\<rparr>)) ! 0 ! 1) (Fin 0)
      \<and> rows (raw s) ! 0 = [Fin 1, Fin 0, Fin 0, Fin 1000]"
proof -
  define d where "d = (Arr2 \<lparr>ncols = 4, rows = [[Fin 1, Fin 0, Fin 0, Fin 1000], [Fin 0, Fin 1, Fin 0, Fin 0], [Fin 0, Fin (- 1), Fin 0, Fin 0]]\<rparr>)"
  define s0 where "s0 = projr (load_from_table d (Fin 0))"
  have h: "load_from_table d (Fin 0) = Inr s0"
    unfolding s0_def d_def by code_simp
  have w: "wf_ndarray d" unfolding d_def by code_simp
  have i2: "2 < length (rows (as_table d))" unfolding d_def by code_simp
  have i0: "0 < length (rows (as_table d))" unfolding d_def by code_simp
  have y2: "fl_lt (rows (as_table d) ! 2 ! 1) (Fin 0) \<and> rows (as_table d) ! 2 ! 1 \<noteq> NaN"
    unfolding d_def by code_simp
  have y0: "\<not> fl_lt (rows (as_table d) ! 0 ! 1) (Fin 0)"
    unfolding d_def by code_simp
  have v2: "map fl_neg (take 3 (rows (as_table d) ! 2)) = [Fin 0, Fin 1, Fin 0]
      \<and> drop 3 (rows (as_table d) ! 2) = [Fin 0]"
    unfolding d_def by code_simp
  have v0: "rows (as_table d) ! 0 = [Fin 1, Fin 0, Fin 0, Fin 1000]"
    unfolding d_def by code_simp
  from normalization_frame[OF h w i2] y2 v2
  have r2: "take 3 (rows (raw s0) ! 2) = [Fin 0, Fin 1, Fin 0]
      \<and> drop 3 (rows (raw s0) ! 2) = [Fin 0]
      \<and> \<not> fl_lt (rows (raw s0) ! 2 ! 1) (Fin 0)
      \<and> fl_le (Fin 0) (rows (raw s0) ! 2 ! 1)"
    by simp
  from normalization_frame[OF h w i0] y0 v0
  have r0: "rows (raw s0) ! 0 = [Fin 1, Fin 0, Fin 0, Fin 1000]"
    by simp
  from h w i2 y2 y0 r2 r0 show ?thesis unfolding d_def by blast
qed

text \<open>
  C8 as stated fails on a row whose Y is NaN: the row is left as it is, and its stored Y
  is not non-negative.
\<close>

theorem normalization_nan_counterexample:
  "\<not> isl (load_from_table (Arr2 \<lparr>ncols = 4, rows = [[Fin 1, NaN, Fin 0, Fin 1000]]\<rparr>) (Fin 0))
   \<and> rows (raw (projr (load_from_table (Arr2 \<lparr>ncols = 4, rows = [[Fin 1, NaN, Fin 0, Fin 1000]]\<rparr>) (Fin 0))))
       = [[Fin 1, NaN, Fin 0, Fin 1000]]
   \<and> \<not> fl_le (Fin 0)
         (rows (raw (projr (load_from_table (Arr2 \<lparr>ncols = 4, rows = [[Fin 1, NaN, Fin 0, Fin 1000]]\<rparr>) (Fin 0)))) ! 0 ! 1)"
  by code_simp

section \<open>Shells\<close>

lemma map_filter_nth:
  "map (\<lambda>i. F (xs ! i)) (filter (\<lambda>i. P (xs ! i)) [0..<length xs]) = map F (filter P xs)"
proof -
  have "map F (filter P xs) = map F (filter P (map (\<lambda>i. xs ! i) [0..<length xs]))"
    by (simp add: map_nth)
  also have "\<dots> = map (\<lambda>i. F (xs ! i)) (filter (\<lambda>i. P (xs ! i)) [0..<length xs])"
    by (simp add: filter_map comp_def)
  finally show ?thesis by simp
qed

lemma make_shells_alt:
  "make_shells ver rws bs thr =
     map (\<lambda>u. make_shell ver rws (map (drop 3) rws) (map (drop 3) rws ! u) (bs ! u))
       (filter (\<lambda>u. \<not> fl_le (bs ! u) thr) (unique_index_sorted (map (drop 3) rws)))"
proof -
  define tmp where "tmp = map (drop 3) rws"
  define ind where "ind = unique_index_sorted tmp"
  have "make_shells ver rws bs thr =
      map (\<lambda>i. make_shell ver rws tmp (tmp ! (ind ! i)) (bs ! (ind ! i)))
        (filter (\<lambda>i. \<not> fl_le (bs ! (ind ! i)) thr) [0..<length ind])"
    unfolding make_shells_def Let_def tmp_def[symmetric] ind_def[symmetric]
    by (auto intro!: map_cong filter_cong)
  also have "\<dots> = map (\<lambda>u. make_shell ver rws tmp (tmp ! u) (bs ! u))
        (filter (\<lambda>u. \<not> fl_le (bs ! u) thr) ind)"
    by (rule map_filter_nth[where F = "\<lambda>u. make_shell ver rws tmp (tmp ! u) (bs ! u)"
          and P = "\<lambda>u. \<not> fl_le (bs ! u) thr"])
  finally show ?thesis unfolding tmp_def ind_def .
qed

lemma shell_idx_make_shell:
  "shell_idx (make_shell ver rws tmp u bu) = filter (\<lambda>i. row_eq (tmp ! i) u) [0..<length tmp]"
  by (auto simp: make_shell_def Let_def np_where_def intro: filter_cong)

lemma shell_b_make_shell: "shell_b (make_shell ver rws tmp u bu) = bu"
  by (simp add: make_shell_def Let_def)

lemma set_unique_index_sorted:
  "set (unique_index_sorted tmp) = {u. u < length tmp \<and> (\<forall>j<u. \<not> row_eq (tmp ! j) (tmp ! u))}"
  by (auto simp: unique_index_sorted_def list_all_iff)

lemma sorted_unique_index_sorted: "sorted_wrt (<) (unique_index_sorted tmp)"
  by (simp add: unique_index_sorted_def sorted_wrt_filter)

lemma fl_eq_imp_eq: "fl_eq x y \<Longrightarrow> x = y"
  by (cases x; cases y) auto

lemma fl_eq_refl: "x \<noteq> NaN \<Longrightarrow> fl_eq x x"
  by (cases x) auto

lemma row_eq_imp_eq: "row_eq r s \<Longrightarrow> r = s"
  unfolding row_eq_def by (induction r s rule: list_all2_induct) (auto dest: fl_eq_imp_eq)

lemma row_eq_refl: "NaN \<notin> set r \<Longrightarrow> row_eq r r"
  unfolding row_eq_def by (induction r) (auto simp: fl_eq_refl)

lemma row_eq_self: "row_eq r s \<Longrightarrow> row_eq s s"
  unfolding row_eq_def
  by (induction r s rule: list_all2_induct) (auto dest: fl_eq_imp_eq)

lemma first_occurrence_exists:
  assumes "i < length tmp" "row_eq (tmp ! i) (tmp ! i)"
  shows "\<exists>u \<in> set (unique_index_sorted tmp). row_eq (tmp ! i) (tmp ! u)"
proof -
  define u where "u = (LEAST j. row_eq (tmp ! j) (tmp ! i))"
  have u: "row_eq (tmp ! u) (tmp ! i)" unfolding u_def using assms(2) by (rule LeastI)
  have le: "u \<le> i" unfolding u_def using assms(2) by (rule Least_le)
  have "\<not> row_eq (tmp ! j) (tmp ! u)" if "j < u" for j
  proof
    assume "row_eq (tmp ! j) (tmp ! u)"
    with u have "row_eq (tmp ! j) (tmp ! i)" using row_eq_imp_eq by metis
    then have "u \<le> j" unfolding u_def by (rule Least_le)
    with that show False by simp
  qed
  with le assms(1) have "u \<in> set (unique_index_sorted tmp)"
    by (simp add: set_unique_index_sorted)
  moreover have "row_eq (tmp ! i) (tmp ! u)" using u row_eq_imp_eq by metis
  ultimately show ?thesis by blast
qed

lemma first_occurrence_unique:
  assumes "u \<in> set (unique_index_sorted tmp)" "v \<in> set (unique_index_sorted tmp)"
    and "row_eq (tmp ! i) (tmp ! u)" "row_eq (tmp ! i) (tmp ! v)"
  shows "u = v"
proof -
  have uv: "row_eq (tmp ! u) (tmp ! v)" using assms(3,4) row_eq_imp_eq by metis
  have vu: "row_eq (tmp ! v) (tmp ! u)" using assms(3,4) row_eq_imp_eq by metis
  from assms(1) vu have "\<not> v < u" by (auto simp: set_unique_index_sorted)
  moreover from assms(2) uv have "\<not> u < v" by (auto simp: set_unique_index_sorted)
  ultimately show ?thesis by simp
qed


lemma set_b_descriptor:
  assumes "set_b t = Inr (ver, bs)" "wf_table t"
  shows "\<exists>f. bs = map (\<lambda>r. f (drop 3 r)) (rows t)"
proof -
  have len: "length r = ncols t" if "r \<in> set (rows t)" for r
    using that assms(2) by (auto simp: wf_table_def list_all_iff)
  consider "ncols t = 4" | "ncols t = 7" | "ncols t > 7"
    using assms(1) by (auto simp: set_b_def split: if_splits)
  then show ?thesis
  proof cases
    case 1
    then have "bs = map (\<lambda>r. r ! 3) (rows t)" using assms(1) set_b_4 by simp
    also have "\<dots> = map (\<lambda>r. (\<lambda>d. d ! 0) (drop 3 r)) (rows t)"
      using len 1 by (intro map_cong) auto
    finally show ?thesis by (rule exI[where x = "\<lambda>d. d ! 0"])
  next
    case 2
    then have "bs = map stejskal_tanner_b (rows t)" using assms(1) set_b_7 by simp
    also have "\<dots> = map (\<lambda>r. (\<lambda>d. fl_mul
       (fl_mul (fl_pow2 (fl_mul (fl_mul (Fin 267513000) (d ! 0)) (d ! 2)))
               (fl_sub (d ! 1) (fl_div (d ! 2) (Fin 3))))
       (Fin (1 / 1000000))) (drop 3 r)) (rows t)"
      using len 2 by (intro map_cong) (auto simp: stejskal_tanner_b_def)
    finally show ?thesis
      by (rule exI[where x = "\<lambda>d. fl_mul
       (fl_mul (fl_pow2 (fl_mul (fl_mul (Fin 267513000) (d ! 0)) (d ! 2)))
               (fl_sub (d ! 1) (fl_div (d ! 2) (Fin 3))))
       (Fin (1 / 1000000))"])
  next
    case 3
    then have "bs = map (\<lambda>r. projr (compute1D_b_TE (drop 4 r) (r ! 3))) (rows t)"
      using assms set_b_wf by simp
    also have "\<dots> = map (\<lambda>r. (\<lambda>d. projr (compute1D_b_TE (drop 1 d) (d ! 0))) (drop 3 r)) (rows t)"
      using len 3 by (intro map_cong) auto
    finally show ?thesis
      by (rule exI[where x = "\<lambda>d. projr (compute1D_b_TE (drop 1 d) (d ! 0))"])
  qed
qed

lemma descriptors_normalize_directions:
  assumes "\<forall>r \<in> set rws. 3 \<le> length r"
  shows "map (drop 3) (normalize_directions rws) = map (drop 3) rws"
proof (rule nth_equalityI)
  show "length (map (drop 3) (normalize_directions rws)) = length (map (drop 3) rws)"
    by (simp add: length_normalize_directions)
next
  fix i assume "i < length (map (drop 3) (normalize_directions rws))"
  then have i: "i < length rws" by (simp add: length_normalize_directions)
  then have "3 \<le> length (rws ! i)" using assms by simp
  then show "map (drop 3) (normalize_directions rws) ! i = map (drop 3) rws ! i"
    using i by (simp add: length_normalize_directions normalize_directions_nth)
qed

text \<open>What the construction gives for the shells, in terms of the input table.\<close>

lemma load_from_table_shells:
  assumes "load_from_table data thr = Inr s" "wf_ndarray data"
  defines "tmp \<equiv> map (drop 3) (rows (raw s))"
  defines "us \<equiv> filter (\<lambda>u. \<not> fl_le (b s ! u) thr) (unique_index_sorted tmp)"
  shows "length (shells s) = length us"
    and "k < length us \<Longrightarrow>
           shell_idx (shells s ! k) = filter (\<lambda>i. row_eq (tmp ! i) (tmp ! (us ! k))) [0..<length tmp]"
    and "k < length us \<Longrightarrow> shell_b (shells s ! k) = b s ! (us ! k)"
    and "\<exists>f. b s = map f tmp"
    and "length tmp = length (b s)"
proof -
  note f = load_from_table_fields[OF assms(1)]
  have rw: "rows (raw s) = normalize_directions (rows (as_table data))" by (simp add: f(5))
  have sh: "shells s = map (\<lambda>u. make_shell (version s) (rows (raw s)) tmp (tmp ! u) (b s ! u)) us"
    unfolding f(6) make_shells_alt us_def tmp_def rw ..
  show "length (shells s) = length us" by (simp add: sh)
  show "shell_idx (shells s ! k) = filter (\<lambda>i. row_eq (tmp ! i) (tmp ! (us ! k))) [0..<length tmp]"
    if "k < length us" using that by (simp add: sh shell_idx_make_shell)
  show "shell_b (shells s ! k) = b s ! (us ! k)" if "k < length us"
    using that by (simp add: sh shell_b_make_shell)
  have wf: "wf_table (as_table data)" using assms(2) by (rule wf_as_table)
  have sb: "set_b (as_table data) = Inr (version s, b s)"
    using assms(1) by (rule load_from_table_set_b)
  have "4 \<le> ncols (as_table data)" using sb by (rule set_b_ncols)
  then have "\<forall>r \<in> set (rows (as_table data)). 3 \<le> length r"
    using wf by (auto simp: wf_table_def list_all_iff)
  then have tmp: "tmp = map (drop 3) (rows (as_table data))"
    unfolding tmp_def rw by (rule descriptors_normalize_directions)
  from set_b_descriptor[OF sb wf] obtain g where "b s = map (\<lambda>r. g (drop 3 r)) (rows (as_table data))"
    by blast
  then have "b s = map g tmp" by (simp add: tmp comp_def)
  then show "\<exists>f. b s = map f tmp" by metis
  show "length tmp = length (b s)" by (simp add: tmp f(7))
qed

text \<open>
  C5. The shells of a constructed scheme are in the order of the first occurrence of
  their descriptor rows (columns 3 to the end, compared entry by entry with \<open>==\<close>),
  scanning the rows from index 0 upwards: there is a strictly ascending list \<open>us\<close> of
  row indices, one per shell, that holds exactly the first occurrences of the distinct
  descriptor rows whose b-value is not at or below the threshold, and the shell at
  position \<open>k\<close> lists exactly the rows whose descriptor row equals that of row \<open>us ! k\<close>
  and carries that row's b-value. The order follows the row indices, not the values.
\<close>

theorem shells_in_first_occurrence_order:
  assumes "load_from_table data thr = Inr s" "wf_ndarray data"
  shows "\<exists>us. length us = length (shells s) \<and> sorted_wrt (<) us
          \<and> set us = {u. u < length (rows (raw s))
                         \<and> (\<forall>j<u. \<not> row_eq (drop 3 (rows (raw s) ! j)) (drop 3 (rows (raw s) ! u)))
                         \<and> \<not> fl_le (b s ! u) thr}
          \<and> (\<forall>k<length us.
                shell_idx (shells s ! k)
                  = filter (\<lambda>i. row_eq (drop 3 (rows (raw s) ! i)) (drop 3 (rows (raw s) ! (us ! k))))
                      [0..<length (rows (raw s))]
                \<and> shell_b (shells s ! k) = b s ! (us ! k))"
proof -
  define tmp where "tmp = map (drop 3) (rows (raw s))"
  define us where "us = filter (\<lambda>u. \<not> fl_le (b s ! u) thr) (unique_index_sorted tmp)"
  note sh = load_from_table_shells[OF assms, folded tmp_def, folded us_def]
  have n: "length tmp = length (rows (raw s))" by (simp add: tmp_def)
  have nth: "tmp ! i = drop 3 (rows (raw s) ! i)" if "i < length (rows (raw s))" for i
    using that by (simp add: tmp_def)
  have 1: "length us = length (shells s)" by (simp add: sh(1))
  have 2: "sorted_wrt (<) us"
    unfolding us_def by (intro sorted_wrt_filter sorted_unique_index_sorted)
  have 3: "set us = {u. u < length (rows (raw s))
                         \<and> (\<forall>j<u. \<not> row_eq (drop 3 (rows (raw s) ! j)) (drop 3 (rows (raw s) ! u)))
                         \<and> \<not> fl_le (b s ! u) thr}"
    unfolding us_def by (auto simp: set_unique_index_sorted n nth)
  have 4: "shell_idx (shells s ! k)
                  = filter (\<lambda>i. row_eq (drop 3 (rows (raw s) ! i)) (drop 3 (rows (raw s) ! (us ! k))))
                      [0..<length (rows (raw s))]
                \<and> shell_b (shells s ! k) = b s ! (us ! k)" if k: "k < length us" for k
  proof -
    from k have "us ! k \<in> set us" by simp
    then have u: "us ! k < length (rows (raw s))" unfolding 3 by simp
    have "shell_idx (shells s ! k) = filter (\<lambda>i. row_eq (tmp ! i) (tmp ! (us ! k))) [0..<length tmp]"
      using k by (rule sh(2))
    also have "\<dots> = filter (\<lambda>i. row_eq (drop 3 (rows (raw s) ! i)) (drop 3 (rows (raw s) ! (us ! k))))
                      [0..<length (rows (raw s))]"
      unfolding n using u by (intro filter_cong) (auto simp: nth)
    finally show ?thesis using sh(3)[OF k] by simp
  qed
  from 1 2 3 4 show ?thesis by blast
qed

theorem shells_in_first_occurrence_order_witness:
  "\<exists>s. load_from_table
          (Arr2 \<lparr>ncols = 4, rows = [[Fin 1, Fin 0, Fin 0, Fin 2000], [Fin 0, Fin 1, Fin 0, Fin 0],
                                    [Fin 0, Fin 1, Fin 0, Fin 1000], [Fin 0, Fin 0, Fin 1, Fin 2000],
                                    [Fin 0, Fin 0, Fin 1, Fin 1000]]\<rparr>) (Fin 0) = Inr s
      \<and> wf_ndarray (Arr2 \<lparr>ncols = 4, rows = [[Fin 1, Fin 0, Fin 0, Fin 2000], [Fin 0, Fin 1, Fin 0, Fin 0],
                                    [Fin 0, Fin 1, Fin 0, Fin 1000], [Fin 0, Fin 0, Fin 1, Fin 2000],
                                    [Fin 0, Fin 0, Fin 1, Fin 1000]]\<rparr>)
      \<and> map shell_b (shells s) = [Fin 2000, Fin 1000]
      \<and> map shell_idx (shells s) = [[0, 3], [2, 4]]
      \<and> (\<exists>us. length us = length (shells s) \<and> sorted_wrt (<) us
          \<and> set us = {u. u < length (rows (raw s))
                         \<and> (\<forall>j<u. \<not> row_eq (drop 3 (rows (raw s) ! j)) (drop 3 (rows (raw s) ! u)))
                         \<and> \<not> fl_le (b s ! u) (Fin 0)}
          \<and> (\<forall>k<length us.
                shell_idx (shells s ! k)
                  = filter (\<lambda>i. row_eq (drop 3 (rows (raw s) ! i)) (drop 3 (rows (raw s) ! (us ! k))))
                      [0..<length (rows (raw s))]
                \<and> shell_b (shells s ! k) = b s ! (us ! k)))"
proof -
  define d where "d = (Arr2 \<lparr>ncols = 4, rows = [[Fin 1, Fin 0, Fin 0, Fin 2000], [Fin 0, Fin 1, Fin 0, Fin 0], [Fin 0, Fin 1, Fin 0, Fin 1000], [Fin 0, Fin 0, Fin 1, Fin 2000], [Fin 0, Fin 0, Fin 1, Fin 1000]]\<rparr>)"
  define s0 where "s0 = projr (load_from_table d (Fin 0))"
  have h: "load_from_table d (Fin 0) = Inr s0"
    unfolding s0_def d_def by code_simp
  have w: "wf_ndarray d" unfolding d_def by code_simp
  have v: "map shell_b (shells s0) = [Fin 2000, Fin 1000]
      \<and> map shell_idx (shells s0) = [[0, 3], [2, 4]]"
    unfolding s0_def d_def by code_simp
  have c: "load_from_table d (Fin 0) = Inr s0
      \<and> wf_ndarray d
      \<and> map shell_b (shells s0) = [Fin 2000, Fin 1000]
      \<and> map shell_idx (shells s0) = [[0, 3], [2, 4]]
      \<and> (\<exists>us. length us = length (shells s0) \<and> sorted_wrt (<) us
          \<and> set us = {u. u < length (rows (raw s0))
                         \<and> (\<forall>j<u. \<not> row_eq (drop 3 (rows (raw s0) ! j)) (drop 3 (rows (raw s0) ! u)))
                         \<and> \<not> fl_le (b s0 ! u) (Fin 0)}
          \<and> (\<forall>k<length us.
                shell_idx (shells s0 ! k)
                  = filter (\<lambda>i. row_eq (drop 3 (rows (raw s0) ! i)) (drop 3 (rows (raw s0) ! (us ! k))))
                      [0..<length (rows (raw s0))]
                \<and> shell_b (shells s0 ! k) = b s0 ! (us ! k)))"
    by (rule conjI[OF h conjI[OF w conjI[OF v[THEN conjunct1] conjI[OF v[THEN conjunct2]
          shells_in_first_occurrence_order[OF h w]]]]])
  show ?thesis by (rule exI[where x = s0]) (rule c[unfolded d_def])
qed

text \<open>
  C4 (as amended). For every constructed scheme in which no b-value and no entry of the
  descriptor columns (3 to the end) is NaN, and every non-negative threshold: each
  weighted row index is in the row-index list of exactly one shell, no baseline row
  index is in any shell, and the union of the shells' row-index lists is the set of the
  weighted indices.
\<close>

theorem shells_partition_weighted:
  assumes "load_from_table data thr = Inr s" "wf_ndarray data"
    and "fl_le (Fin 0) thr"
    and "NaN \<notin> set (b s)"
    and "\<forall>r \<in> set (rows (raw s)). NaN \<notin> set (drop 3 r)"
  shows "(\<forall>i \<in> set (dwi_idx s). \<exists>!k. k < length (shells s) \<and> i \<in> set (shell_idx (shells s ! k)))
       \<and> (\<forall>i \<in> set (b0_idx s). \<forall>k<length (shells s). i \<notin> set (shell_idx (shells s ! k)))
       \<and> (\<Union>sh \<in> set (shells s). set (shell_idx sh)) = set (dwi_idx s)"
proof -
  define tmp where "tmp = map (drop 3) (rows (raw s))"
  define us where "us = filter (\<lambda>u. \<not> fl_le (b s ! u) thr) (unique_index_sorted tmp)"
  note sh = load_from_table_shells[OF assms(1,2), folded tmp_def, folded us_def]
  note f = load_from_table_fields[OF assms(1)]
  from sh(4) obtain g where g: "b s = map g tmp" by blast
  have bi: "b s ! i = g (tmp ! i)" if "i < length tmp" for i
    using that by (simp add: g)
  have thr: "thr \<noteq> NaN" using assms(3) by (cases thr) (auto simp: fl_le_def)
  have dwi: "set (dwi_idx s) = {i. i < length tmp \<and> fl_gt (b s ! i) thr}"
    by (auto simp: f(2) set_np_where sh(5))
  have b0: "set (b0_idx s) = {i. i < length tmp \<and> fl_le (b s ! i) thr}"
    by (auto simp: f(1) set_np_where sh(5))
  have refl: "row_eq (tmp ! i) (tmp ! i)" if "i < length tmp" for i
  proof -
    have "tmp ! i = drop 3 (rows (raw s) ! i)" "rows (raw s) ! i \<in> set (rows (raw s))"
      using that by (simp_all add: tmp_def)
    with assms(5) show ?thesis by (simp add: row_eq_refl)
  qed
  have us_lt: "us ! k < length tmp" and us_un: "us ! k \<in> set (unique_index_sorted tmp)"
    and us_b: "\<not> fl_le (b s ! (us ! k)) thr" if "k < length us" for k
  proof -
    from that have "us ! k \<in> set us" by simp
    then show "us ! k < length tmp" "us ! k \<in> set (unique_index_sorted tmp)"
      "\<not> fl_le (b s ! (us ! k)) thr"
      by (auto simp: us_def set_unique_index_sorted)
  qed
  have dist: "distinct us"
    unfolding us_def by (intro distinct_filter) (simp add: unique_index_sorted_def)
  have mem: "i \<in> set (shell_idx (shells s ! k)) \<longleftrightarrow> i < length tmp \<and> row_eq (tmp ! i) (tmp ! (us ! k))"
    if "k < length us" for i k
    using that by (auto simp: sh(2))
  have same_b: "b s ! i = b s ! (us ! k)"
    if "k < length us" "i < length tmp" "row_eq (tmp ! i) (tmp ! (us ! k))" for i k
    using that us_lt[OF that(1)] row_eq_imp_eq[OF that(3)] by (simp add: bi)
  have 1: "\<exists>!k. k < length (shells s) \<and> i \<in> set (shell_idx (shells s ! k))"
    if i: "i \<in> set (dwi_idx s)" for i
  proof -
    from i have il: "i < length tmp" and ig: "fl_gt (b s ! i) thr" by (simp_all add: dwi)
    from first_occurrence_exists[OF il refl[OF il]]
    obtain u where u: "u \<in> set (unique_index_sorted tmp)" "row_eq (tmp ! i) (tmp ! u)" by blast
    then have ul: "u < length tmp" by (simp add: set_unique_index_sorted)
    have "b s ! u = b s ! i" using row_eq_imp_eq[OF u(2)] il ul by (simp add: bi)
    with ig have "\<not> fl_le (b s ! u) thr" using fl_le_gt_exclusive by metis
    with u(1) have "u \<in> set us" by (simp add: us_def)
    then obtain k where k: "k < length us" "us ! k = u" by (auto simp: in_set_conv_nth)
    have ex: "k < length (shells s) \<and> i \<in> set (shell_idx (shells s ! k))"
      using k u(2) il by (simp add: sh(1) mem)
    have "k' = k" if k': "k' < length (shells s) \<and> i \<in> set (shell_idx (shells s ! k'))" for k'
    proof -
      from k' have kl: "k' < length us" by (simp add: sh(1))
      with k' have "row_eq (tmp ! i) (tmp ! (us ! k'))" by (simp add: mem)
      with u k have "us ! k' = us ! k"
        using first_occurrence_unique[OF us_un[OF kl] us_un[OF k(1)]] by simp
      with dist kl k(1) show ?thesis by (simp add: nth_eq_iff_index_eq)
    qed
    with ex show ?thesis by blast
  qed
  have 2: "i \<notin> set (shell_idx (shells s ! k))"
    if i: "i \<in> set (b0_idx s)" and k: "k < length (shells s)" for i k
  proof
    assume a: "i \<in> set (shell_idx (shells s ! k))"
    from k have kl: "k < length us" by (simp add: sh(1))
    from a kl have "i < length tmp" "row_eq (tmp ! i) (tmp ! (us ! k))" by (simp_all add: mem)
    then have "b s ! i = b s ! (us ! k)" using kl by (simp add: same_b)
    moreover from i have "fl_le (b s ! i) thr" by (simp add: b0)
    ultimately show False using us_b[OF kl] by simp
  qed
  have 3: "(\<Union>sh \<in> set (shells s). set (shell_idx sh)) = set (dwi_idx s)"
  proof (intro equalityI subsetI)
    fix i assume "i \<in> (\<Union>sh \<in> set (shells s). set (shell_idx sh))"
    then obtain sh0 where "sh0 \<in> set (shells s)" "i \<in> set (shell_idx sh0)" by blast
    then obtain k where k: "k < length (shells s)" "i \<in> set (shell_idx (shells s ! k))"
      by (metis in_set_conv_nth)
    then have kl: "k < length us" by (simp add: sh(1))
    from k(2) kl have il: "i < length tmp" and re: "row_eq (tmp ! i) (tmp ! (us ! k))"
      by (simp_all add: mem)
    then have e: "b s ! i = b s ! (us ! k)" using kl by (simp add: same_b)
    have "b s ! i \<in> set (b s)" using il by (simp add: sh(5))
    with assms(4) have "b s ! i \<noteq> NaN" by metis
    with thr us_b[OF kl] e have "fl_gt (b s ! i) thr" using fl_le_or_gt by metis
    with il show "i \<in> set (dwi_idx s)" by (simp add: dwi)
  next
    fix i assume "i \<in> set (dwi_idx s)"
    from 1[OF this] obtain k where "k < length (shells s)" "i \<in> set (shell_idx (shells s ! k))"
      by blast
    then show "i \<in> (\<Union>sh \<in> set (shells s). set (shell_idx sh))"
      using nth_mem by blast
  qed
  from 1 2 3 show ?thesis by blast
qed

theorem shells_partition_weighted_witness:
  "\<exists>s. load_from_table
          (Arr2 \<lparr>ncols = 4, rows = [[Fin 1, Fin 0, Fin 0, Fin 2000], [Fin 0, Fin 1, Fin 0, Fin 0],
                                    [Fin 0, Fin 1, Fin 0, Fin 1000], [Fin 0, Fin 0, Fin 1, Fin 2000],
                                    [Fin 0, Fin 0, Fin 1, Fin 1000]]\<rparr>) (Fin 0) = Inr s
      \<and> wf_ndarray (Arr2 \<lparr>ncols = 4, rows = [[Fin 1, Fin 0, Fin 0, Fin 2000], [Fin 0, Fin 1, Fin 0, Fin 0],
                                    [Fin 0, Fin 1, Fin 0, Fin 1000], [Fin 0, Fin 0, Fin 1, Fin 2000],
                                    [Fin 0, Fin 0, Fin 1, Fin 1000]]\<rparr>)
      \<and> fl_le (Fin 0) (Fin 0)
      \<and> NaN \<notin> set (b s)
      \<and> list_all (\<lambda>r. NaN \<notin> set (drop 3 r)) (rows (raw s))
      \<and> dwi_idx s = [0, 2, 3, 4] \<and> b0_idx s = [1]
      \<and> map shell_idx (shells s) = [[0, 3], [2, 4]]
      \<and> (\<Union>sh \<in> set (shells s). set (shell_idx sh)) = set (dwi_idx s)"
proof -
  define d where "d = (Arr2 \<lparr>ncols = 4, rows = [[Fin 1, Fin 0, Fin 0, Fin 2000], [Fin 0, Fin 1, Fin 0, Fin 0], [Fin 0, Fin 1, Fin 0, Fin 1000], [Fin 0, Fin 0, Fin 1, Fin 2000], [Fin 0, Fin 0, Fin 1, Fin 1000]]\<rparr>)"
  define s0 where "s0 = projr (load_from_table d (Fin 0))"
  have h: "load_from_table d (Fin 0) = Inr s0"
    unfolding s0_def d_def by code_simp
  have w: "wf_ndarray d" unfolding d_def by code_simp
  have t: "fl_le (Fin 0) (Fin 0)" by code_simp
  have n: "NaN \<notin> set (b s0)" unfolding s0_def d_def by code_simp
  have m: "list_all (\<lambda>r. NaN \<notin> set (drop 3 r)) (rows (raw s0))"
    unfolding s0_def d_def by code_simp
  then have m': "\<forall>r \<in> set (rows (raw s0)). NaN \<notin> set (drop 3 r)"
    by (simp add: list_all_iff)
  have v: "dwi_idx s0 = [0, 2, 3, 4] \<and> b0_idx s0 = [1]
      \<and> map shell_idx (shells s0) = [[0, 3], [2, 4]]"
    unfolding s0_def d_def by code_simp
  from shells_partition_weighted[OF h w t n m']
  have u: "(\<Union>sh \<in> set (shells s0). set (shell_idx sh)) = set (dwi_idx s0)"
    by (rule conjunct2[OF conjunct2])
  have c: "load_from_table d (Fin 0) = Inr s0
      \<and> wf_ndarray d
      \<and> fl_le (Fin 0) (Fin 0)
      \<and> NaN \<notin> set (b s0)
      \<and> list_all (\<lambda>r. NaN \<notin> set (drop 3 r)) (rows (raw s0))
      \<and> dwi_idx s0 = [0, 2, 3, 4] \<and> b0_idx s0 = [1]
      \<and> map shell_idx (shells s0) = [[0, 3], [2, 4]]
      \<and> (\<Union>sh \<in> set (shells s0). set (shell_idx sh)) = set (dwi_idx s0)"
    by (rule conjI[OF h conjI[OF w conjI[OF t conjI[OF n conjI[OF m
          conjI[OF v[THEN conjunct1] conjI[OF v[THEN conjunct2, THEN conjunct1]
          conjI[OF v[THEN conjunct2, THEN conjunct2] u]]]]]]]])
  show ?thesis by (rule exI[where x = s0]) (rule c[unfolded d_def])
qed

text \<open>
  C4 as stated fails on a Stejskal-Tanner row whose echo time is NaN: its b-value is
  positive, so the row is weighted, but \<open>==\<close> never matches its descriptor row, and the
  one shell lists no row.
\<close>

theorem shells_nan_counterexample:
  "\<not> isl (load_from_table
            (Arr2 \<lparr>ncols = 7, rows = [[Fin 1, Fin 0, Fin 0, Fin (1 / 1000), Fin (25 / 1000),
                                     Fin (10 / 1000), NaN]]\<rparr>) (Fin 0))
   \<and> dwi_idx (projr (load_from_table
            (Arr2 \<lparr>ncols = 7, rows = [[Fin 1, Fin 0, Fin 0, Fin (1 / 1000), Fin (25 / 1000),
                                     Fin (10 / 1000), NaN]]\<rparr>) (Fin 0))) = [0]
   \<and> map shell_idx (shells (projr (load_from_table
            (Arr2 \<lparr>ncols = 7, rows = [[Fin 1, Fin 0, Fin 0, Fin (1 / 1000), Fin (25 / 1000),
                                     Fin (10 / 1000), NaN]]\<rparr>) (Fin 0)))) = [[]]"
  by code_simp

section \<open>The b-values\<close>

lemma stejskal_tanner_b_Fin:
  "r ! 3 = Fin G \<Longrightarrow> r ! 4 = Fin D \<Longrightarrow> r ! 5 = Fin d \<Longrightarrow> stejskal_tanner_b r = Fin ((267513000 * G * d)\<^sup>2 * (D - d / 3) * (1 / 1000000))"
  by (simp add: stejskal_tanner_b_def fl_pow2_def fl_sub_def power2_eq_square)

text \<open>
  C2. For every table with exactly 7 columns, the b-value of each row is
  \<open>(\<gamma> G \<delta>)\<^sup>2 (\<Delta> - \<delta>/3) 1e-6\<close> with \<open>\<gamma> = 267.513e6\<close>, \<open>G\<close> column 3, \<open>\<Delta>\<close> column 4
  and \<open>\<delta>\<close> column 5 of that row: as the expression in the table's arithmetic for every
  entry, and as that real number when the three entries are finite. The witness is the
  row with \<open>G = 1e-3\<close>, \<open>\<Delta> = 0.025\<close>, \<open>\<delta> = 0.010\<close>, whose b-value is the expected
  value, so within a relative tolerance of \<open>1e-6\<close> of it.
\<close>

theorem stejskal_tanner_b_values:
  assumes "load_from_table data thr = Inr s"
    and "ncols (as_table data) = 7"
    and "i < length (rows (as_table data))"
  shows "b s ! i =
           fl_mul
             (fl_mul (fl_pow2 (fl_mul (fl_mul (Fin 267513000) (rows (as_table data) ! i ! 3))
                                      (rows (as_table data) ! i ! 5)))
                     (fl_sub (rows (as_table data) ! i ! 4)
                             (fl_div (rows (as_table data) ! i ! 5) (Fin 3))))
             (Fin (1 / 1000000))
       \<and> (\<forall>G D d. rows (as_table data) ! i ! 3 = Fin G \<and> rows (as_table data) ! i ! 4 = Fin D
                   \<and> rows (as_table data) ! i ! 5 = Fin d \<longrightarrow>
             b s ! i = Fin ((267513000 * G * d)\<^sup>2 * (D - d / 3) * (1 / 1000000)))"
proof -
  have "set_b (as_table data) = Inr (version s, b s)"
    using assms(1) by (rule load_from_table_set_b)
  with assms(2) have "b s = map stejskal_tanner_b (rows (as_table data))"
    by (simp add: set_b_7)
  then have bi: "b s ! i = stejskal_tanner_b (rows (as_table data) ! i)"
    using assms(3) by simp
  show ?thesis
    unfolding bi using stejskal_tanner_b_Fin[of "rows (as_table data) ! i"]
    by (auto simp: stejskal_tanner_b_def)
qed

theorem stejskal_tanner_b_values_witness:
  "\<exists>s. load_from_table
          (Arr2 \<lparr>ncols = 7, rows = [[Fin 1, Fin 0, Fin 0, Fin (1 / 1000), Fin (25 / 1000),
                                     Fin (10 / 1000), Fin (50 / 1000)]]\<rparr>) (Fin 0) = Inr s
      \<and> ncols (as_table (Arr2 \<lparr>ncols = 7, rows = [[Fin 1, Fin 0, Fin 0, Fin (1 / 1000), Fin (25 / 1000),
                                     Fin (10 / 1000), Fin (50 / 1000)]]\<rparr>)) = 7
      \<and> b s ! 0 = Fin ((267513000 * (1 / 1000) * (10 / 1000))\<^sup>2 * (25 / 1000 - (10 / 1000) / 3)
                        * (1 / 1000000))
      \<and> (\<exists>v. b s ! 0 = Fin v
            \<and> \<bar>v - (267513000 * (1 / 1000) * (10 / 1000))\<^sup>2 * (25 / 1000 - (10 / 1000) / 3)
                        * (1 / 1000000)\<bar>
               \<le> (1 / 1000000) * \<bar>(267513000 * (1 / 1000) * (10 / 1000))\<^sup>2
                        * (25 / 1000 - (10 / 1000) / 3) * (1 / 1000000)\<bar>)"
proof -
  define d where "d = Arr2 \<lparr>ncols = 7, rows = [[Fin 1, Fin 0, Fin 0, Fin (1 / 1000), Fin (25 / 1000), Fin (10 / 1000), Fin (50 / 1000)]]\<rparr>"
  define s0 where "s0 = projr (load_from_table d (Fin 0))"
  have h: "load_from_table d (Fin 0) = Inr s0"
    unfolding s0_def d_def by code_simp
  have n: "ncols (as_table d) = 7" unfolding d_def by simp
  have i: "0 < length (rows (as_table d))" unfolding d_def by simp
  have r: "rows (as_table d) ! 0 ! 3 = Fin (1 / 1000) \<and> rows (as_table d) ! 0 ! 4 = Fin (25 / 1000)
      \<and> rows (as_table d) ! 0 ! 5 = Fin (10 / 1000)"
    unfolding d_def by simp
  from stejskal_tanner_b_values[OF h n i] r
  have v: "b s0 ! 0 = Fin ((267513000 * (1 / 1000) * (10 / 1000))\<^sup>2 * (25 / 1000 - (10 / 1000) / 3)
                        * (1 / 1000000))"
    by blast
  have e: "\<exists>v. b s0 ! 0 = Fin v
            \<and> \<bar>v - (267513000 * (1 / 1000) * (10 / 1000))\<^sup>2 * (25 / 1000 - (10 / 1000) / 3)
                        * (1 / 1000000)\<bar>
               \<le> (1 / 1000000) * \<bar>(267513000 * (1 / 1000) * (10 / 1000))\<^sup>2
                        * (25 / 1000 - (10 / 1000) / 3) * (1 / 1000000)\<bar>"
    by (rule exI[where x = "(267513000 * (1 / 1000) * (10 / 1000))\<^sup>2 * (25 / 1000 - (10 / 1000) / 3)
                        * (1 / 1000000)"]) (simp add: v)
  have c: "load_from_table d (Fin 0) = Inr s0
      \<and> ncols (as_table d) = 7
      \<and> b s0 ! 0 = Fin ((267513000 * (1 / 1000) * (10 / 1000))\<^sup>2 * (25 / 1000 - (10 / 1000) / 3)
                        * (1 / 1000000))
      \<and> (\<exists>v. b s0 ! 0 = Fin v
            \<and> \<bar>v - (267513000 * (1 / 1000) * (10 / 1000))\<^sup>2 * (25 / 1000 - (10 / 1000) / 3)
                        * (1 / 1000000)\<bar>
               \<le> (1 / 1000000) * \<bar>(267513000 * (1 / 1000) * (10 / 1000))\<^sup>2
                        * (25 / 1000 - (10 / 1000) / 3) * (1 / 1000000)\<bar>)"
    by (rule conjI[OF h conjI[OF n conjI[OF v e]]])
  show ?thesis by (rule exI[where x = s0]) (rule c[unfolded d_def])
qed

lemma cumsum_from_Fin:
  "cumsum_from (Fin a) (map Fin g) = map (\<lambda>k. Fin (a + (\<Sum>j\<le>k. g ! j))) [0..<length g]"
proof (induction g arbitrary: a)
  case Nil
  then show ?case by simp
next
  case (Cons x xs)
  have "map (\<lambda>k. Fin (a + (\<Sum>j\<le>k. (x # xs) ! j))) [0..<length (x # xs)]
      = Fin (a + x) # map (\<lambda>k. Fin (a + (\<Sum>j\<le>Suc k. (x # xs) ! j))) [0..<length xs]"
    by (simp add: upt_conv_Cons map_Suc_upt[symmetric] del: upt_Suc sum.atMost_Suc)
  also have "\<dots> = Fin (a + x) # map (\<lambda>k. Fin (a + x + (\<Sum>j\<le>k. xs ! j))) [0..<length xs]"
    by (simp add: sum.atMost_Suc_shift add.assoc del: sum.atMost_Suc)
  finally show ?case by (simp add: Cons.IH)
qed

lemma foldl_fl_add_Fin: "foldl fl_add (Fin a) (map Fin xs) = Fin (a + sum_list xs)"
  by (induction xs arbitrary: a) (simp_all add: add.assoc)

lemma compute1D_b_Fin:
  assumes "g \<noteq> []"
  shows "compute1D_b (map Fin g) (Fin TE) u
         = Inr (Fin (if u = ''usual'' then spec_b_SI g TE / 1000000 else spec_b_SI g TE))"
proof -
  define dt where "dt = TE / real (length g)"
  define qs where "qs = map (\<lambda>k. (\<Sum>j\<le>k. g ! j) * dt * 267519870) [0..<length g]"
  have dt: "fl_div (Fin TE) (Fin (real (length g))) = Fin dt"
    using assms by (simp add: dt_def)
  have q: "map (\<lambda>c. fl_mul (fl_mul c (Fin dt)) (Fin 267519870)) (cumsum (map Fin g)) = map Fin qs"
    by (simp add: cumsum_def cumsum_from_Fin qs_def)
  have "map2 fl_mul (map Fin qs) (map Fin qs) = map Fin (map (\<lambda>x. x * x) qs)"
    by (simp add: zip_map_map zip_same_conv_map)
  then have "np_dot (map Fin qs) (map Fin qs) = Fin (sum_list (map (\<lambda>x. x * x) qs))"
    unfolding np_dot_def using foldl_fl_add_Fin[of 0 "map (\<lambda>x. x * x) qs"] by simp
  also have "sum_list (map (\<lambda>x. x * x) qs)
      = (\<Sum>k<length g. ((\<Sum>j\<le>k. g ! j) * dt * 267519870)\<^sup>2)"
    by (simp add: qs_def comp_def power2_eq_square interv_sum_list_conv_sum_set_nat atLeast0LessThan)
  finally have nd: "np_dot (map Fin qs) (map Fin qs)
      = Fin (\<Sum>k<length g. ((\<Sum>j\<le>k. g ! j) * dt * 267519870)\<^sup>2)" .
  have e: "spec_b_SI g TE = (\<Sum>k<length g. ((\<Sum>j\<le>k. g ! j) * dt * 267519870)\<^sup>2) * dt"
    by (simp only: spec_b_SI_def Let_def dt_def)
  have d: "fl_mul (np_dot (map Fin qs) (map Fin qs)) (Fin dt) = Fin (spec_b_SI g TE)"
    unfolding nd e by (simp only: fl_mul.simps)
  show ?thesis
    using assms by (simp add: compute1D_b_def Let_def dt_def[symmetric] q d)
qed

text \<open>
  C3. For every table with at least 8 columns, the b-value of each row is what
  \<open>compute1D_b\<close> returns on the row's waveform (columns 4 to the end, of length
  \<open>M - 4\<close>) and the row's own echo time (column 3) with the unit \<open>usual\<close>; for finite
  entries it is \<open>b_SI / 1e6\<close>, where \<open>b_SI\<close> is the sum of the squares of \<open>q\<close> times
  \<open>dt\<close>, \<open>q\<close> the running totals of the waveform times \<open>dt\<close> times \<open>2.6751987e8\<close> and
  \<open>dt = TE / L\<close>. \<open>compute1D_b\<close> returns \<open>b_SI / 1e6\<close> for the unit \<open>usual\<close>, which is
  the default, \<open>b_SI\<close> for \<open>SI\<close>, and for any other unit what it returns for \<open>SI\<close>; its
  default echo time is 0.100.
\<close>

theorem waveform_b_values:
  assumes "load_from_table data thr = Inr s" "wf_ndarray data"
    and "8 \<le> ncols (as_table data)"
    and "i < length (rows (as_table data))"
  shows "length (drop 4 (rows (as_table data) ! i)) = ncols (as_table data) - 4
       \<and> compute1D_b (drop 4 (rows (as_table data) ! i)) (rows (as_table data) ! i ! 3) ''usual''
           = Inr (b s ! i)
       \<and> (\<forall>g TE. drop 4 (rows (as_table data) ! i) = map Fin g
                  \<and> rows (as_table data) ! i ! 3 = Fin TE \<longrightarrow>
             b s ! i = Fin (spec_b_SI g TE / 1000000))
       \<and> (w \<noteq> [] \<longrightarrow>
             compute1D_b (map Fin w) (Fin T) ''usual'' = Inr (Fin (spec_b_SI w T / 1000000))
             \<and> compute1D_b (map Fin w) (Fin T) ''SI'' = Inr (Fin (spec_b_SI w T)))
       \<and> (u \<noteq> ''usual'' \<longrightarrow> compute1D_b x T' u = compute1D_b x T' ''SI'')
       \<and> compute1D_b_TE x T' = compute1D_b x T' ''usual''
       \<and> compute1D_b_default x = compute1D_b x (Fin (1 / 10)) ''usual''"
proof -
  define r where "r = rows (as_table data) ! i"
  have wf: "wf_table (as_table data)" using assms(2) by (rule wf_as_table)
  have "r \<in> set (rows (as_table data))" using assms(4) by (simp add: r_def)
  then have lr: "length r = ncols (as_table data)"
    using wf by (auto simp: wf_table_def list_all_iff)
  have 1: "length (drop 4 r) = ncols (as_table data) - 4" by (simp add: lr)
  have ne: "drop 4 r \<noteq> []" using lr assms(3) by simp
  have "set_b (as_table data) = Inr (version s, b s)"
    using assms(1) by (rule load_from_table_set_b)
  then have "b s = map (\<lambda>r. projr (compute1D_b_TE (drop 4 r) (r ! 3))) (rows (as_table data))"
    using set_b_wf[OF wf] assms(3) by simp
  then have bi: "b s ! i = projr (compute1D_b (drop 4 r) (r ! 3) ''usual'')"
    using assms(4) by (simp add: r_def compute1D_b_TE_def)
  from compute1D_b_Inr[OF ne] obtain v where v: "compute1D_b (drop 4 r) (r ! 3) ''usual'' = Inr v"
    by blast
  have 2: "compute1D_b (drop 4 r) (r ! 3) ''usual'' = Inr (b s ! i)"
    by (simp add: bi v)
  have 3: "b s ! i = Fin (spec_b_SI g TE / 1000000)"
    if "drop 4 r = map Fin g \<and> r ! 3 = Fin TE" for g TE
  proof -
    from that ne have "g \<noteq> []" by auto
    from compute1D_b_Fin[OF this, of TE "''usual''"] that show ?thesis
      by (simp add: bi)
  qed
  have 4: "w \<noteq> [] \<longrightarrow>
             compute1D_b (map Fin w) (Fin T) ''usual'' = Inr (Fin (spec_b_SI w T / 1000000))
             \<and> compute1D_b (map Fin w) (Fin T) ''SI'' = Inr (Fin (spec_b_SI w T))"
    by (simp add: compute1D_b_Fin)
  have 5: "u \<noteq> ''usual'' \<longrightarrow> compute1D_b x T' u = compute1D_b x T' ''SI''"
    by (simp add: compute1D_b_def Let_def)
  have 6: "compute1D_b_TE x T' = compute1D_b x T' ''usual''"
    by (simp add: compute1D_b_TE_def)
  have 7: "compute1D_b_default x = compute1D_b x (Fin (1 / 10)) ''usual''"
    by (simp add: compute1D_b_default_def)
  from 1 2 3 4 5 6 7 show ?thesis unfolding r_def by blast
qed


theorem waveform_b_values_witness:
  "\<exists>s. load_from_table (Arr2 \<lparr>ncols = 8, rows = [[Fin 1, Fin 0, Fin 0, Fin (1 / 10), Fin 1, Fin 1, Fin 1, Fin 1]]\<rparr>) (Fin 0) = Inr s
      \<and> wf_ndarray (Arr2 \<lparr>ncols = 8, rows = [[Fin 1, Fin 0, Fin 0, Fin (1 / 10), Fin 1, Fin 1, Fin 1, Fin 1]]\<rparr>)
      \<and> 8 \<le> ncols (as_table (Arr2 \<lparr>ncols = 8, rows = [[Fin 1, Fin 0, Fin 0, Fin (1 / 10), Fin 1, Fin 1, Fin 1, Fin 1]]\<rparr>))
      \<and> 0 < length (rows (as_table (Arr2 \<lparr>ncols = 8, rows = [[Fin 1, Fin 0, Fin 0, Fin (1 / 10), Fin 1, Fin 1, Fin 1, Fin 1]]\<rparr>)))
      \<and> drop 4 (rows (as_table (Arr2 \<lparr>ncols = 8, rows = [[Fin 1, Fin 0, Fin 0, Fin (1 / 10), Fin 1, Fin 1, Fin 1, Fin 1]]\<rparr>)) ! 0) = map Fin [1, 1, 1, 1]
      \<and> rows (as_table (Arr2 \<lparr>ncols = 8, rows = [[Fin 1, Fin 0, Fin 0, Fin (1 / 10), Fin 1, Fin 1, Fin 1, Fin 1]]\<rparr>)) ! 0 ! 3 = Fin (1 / 10)
      \<and> b s ! 0 = Fin (spec_b_SI [1, 1, 1, 1] (1 / 10) / 1000000)
      \<and> spec_b_SI [1, 1, 1, 1] (1 / 10) / 1000000 = 2147006425344507 / 64000000
      \<and> [1, 1, 1, 1 :: real] \<noteq> []
      \<and> compute1D_b (map Fin [1, 1, 1, 1]) (Fin (1 / 10)) ''SI''
          = Inr (Fin (spec_b_SI [1, 1, 1, 1] (1 / 10)))
      \<and> ''other'' \<noteq> ''usual''
      \<and> compute1D_b (map Fin [1, 1, 1, 1]) (Fin (1 / 10)) ''other''
          = compute1D_b (map Fin [1, 1, 1, 1]) (Fin (1 / 10)) ''SI''"
proof -
  define d where "d = (Arr2 \<lparr>ncols = 8, rows = [[Fin 1, Fin 0, Fin 0, Fin (1 / 10), Fin 1, Fin 1, Fin 1, Fin 1]]\<rparr>)"
  define s0 where "s0 = projr (load_from_table d (Fin 0))"
  have h: "load_from_table d (Fin 0) = Inr s0"
    unfolding s0_def d_def by code_simp
  have w: "wf_ndarray d" unfolding d_def by code_simp
  have n: "8 \<le> ncols (as_table d)" unfolding d_def by simp
  have i: "0 < length (rows (as_table d))" unfolding d_def by simp
  have g: "drop 4 (rows (as_table d) ! 0) = map Fin [1, 1, 1, 1]" unfolding d_def by simp
  have t: "rows (as_table d) ! 0 ! 3 = Fin (1 / 10)" unfolding d_def by simp
  have e: "spec_b_SI [1, 1, 1, 1] (1 / 10) / 1000000 = 2147006425344507 / 64000000"
    by (simp add: spec_b_SI_def Let_def eval_nat_numeral lessThan_Suc atMost_Suc)
  have ne: "[1, 1, 1, 1 :: real] \<noteq> []" by simp
  have o: "''other'' \<noteq> ''usual''" by simp
  note th = waveform_b_values[OF h w n i, of "[1, 1, 1, 1]" "1 / 10" "''other''"
      "map Fin [1, 1, 1, 1]" "Fin (1 / 10)"]
  from th g t have v: "b s0 ! 0 = Fin (spec_b_SI [1, 1, 1, 1] (1 / 10) / 1000000)" by blast
  from th ne have si: "compute1D_b (map Fin [1, 1, 1, 1]) (Fin (1 / 10)) ''SI''
          = Inr (Fin (spec_b_SI [1, 1, 1, 1] (1 / 10)))" by blast
  from th o have ot: "compute1D_b (map Fin [1, 1, 1, 1]) (Fin (1 / 10)) ''other''
          = compute1D_b (map Fin [1, 1, 1, 1]) (Fin (1 / 10)) ''SI''" by blast
  have c: "load_from_table d (Fin 0) = Inr s0
      \<and> wf_ndarray d
      \<and> 8 \<le> ncols (as_table d)
      \<and> 0 < length (rows (as_table d))
      \<and> drop 4 (rows (as_table d) ! 0) = map Fin [1, 1, 1, 1]
      \<and> rows (as_table d) ! 0 ! 3 = Fin (1 / 10)
      \<and> b s0 ! 0 = Fin (spec_b_SI [1, 1, 1, 1] (1 / 10) / 1000000)
      \<and> spec_b_SI [1, 1, 1, 1] (1 / 10) / 1000000 = 2147006425344507 / 64000000
      \<and> [1, 1, 1, 1 :: real] \<noteq> []
      \<and> compute1D_b (map Fin [1, 1, 1, 1]) (Fin (1 / 10)) ''SI''
          = Inr (Fin (spec_b_SI [1, 1, 1, 1] (1 / 10)))
      \<and> ''other'' \<noteq> ''usual''
      \<and> compute1D_b (map Fin [1, 1, 1, 1]) (Fin (1 / 10)) ''other''
          = compute1D_b (map Fin [1, 1, 1, 1]) (Fin (1 / 10)) ''SI''"
    by (rule conjI[OF h conjI[OF w conjI[OF n conjI[OF i conjI[OF g conjI[OF t conjI[OF v
          conjI[OF e conjI[OF ne conjI[OF si conjI[OF o ot]]]]]]]]]]])
  show ?thesis by (rule exI[where x = s0]) (rule c[unfolded d_def])
qed

section \<open>Serialisation of a waveform scheme\<close>

lemma fold_append_concat:
  "fold (\<lambda>i f. f @ h i) js f0 = f0 @ concat (map h js)"
  by (induction js arbitrary: f0) simp_all

lemma map_nth_fun: "map (\<lambda>i. F (g ! i)) [0..<length g] = map F g"
proof -
  have "map F g = map F (map (\<lambda>i. g ! i) [0..<length g])" by (simp add: map_nth)
  then show ?thesis by (simp add: comp_def)
qed

lemma write_Camino_wf_append:
  "write_Camino_wf str_float round5 (length g) TE (map (fl_mul x) g) (map (fl_mul y) g)
       (map (fl_mul z) g) schemefile
   = schemefile @ (str_nat (length g) @ '' '' @ str_float (fl_div TE (Fin (real (length g)))) @ '' ''
       @ concat (map (\<lambda>v. str_float (round5 (fl_mul x v)) @ '' ''
                          @ str_float (round5 (fl_mul y v)) @ '' ''
                          @ str_float (round5 (fl_mul z v)) @ '' '') g)
       @ newline)"
proof -
  let ?h = "\<lambda>i. str_float (round5 (map (fl_mul x) g ! i)) @ '' ''
                @ str_float (round5 (map (fl_mul y) g ! i)) @ '' ''
                @ str_float (round5 (map (fl_mul z) g ! i)) @ '' ''"
  let ?F = "\<lambda>v. str_float (round5 (fl_mul x v)) @ '' ''
                @ str_float (round5 (fl_mul y v)) @ '' ''
                @ str_float (round5 (fl_mul z v)) @ '' ''"
  have "map ?h [0..<length g] = map (\<lambda>i. ?F (g ! i)) [0..<length g]"
    by (intro map_cong) auto
  also have "\<dots> = map ?F g" by (rule map_nth_fun)
  finally have m: "map ?h [0..<length g] = map ?F g" .
  have "fold (\<lambda>i f. ((f @ (str_float (round5 (map (fl_mul x) g ! i)) @ '' ''))
                               @ (str_float (round5 (map (fl_mul y) g ! i)) @ '' ''))
                               @ (str_float (round5 (map (fl_mul z) g ! i)) @ '' ''))
          [0..<length g] f1
      = f1 @ concat (map ?h [0..<length g])" for f1
    using fold_append_concat[of ?h "[0..<length g]" f1] by (simp only: append_assoc)
  then show ?thesis
    unfolding write_Camino_wf_def Let_def m by (simp only: append_assoc)
qed

lemma write_Camino_schemefile_waveform:
  assumes "version s = 2"
  shows "write_Camino_schemefile str_float round5 fmt_e s
         = Some (spec_wf_text ''VERSION: GRADIENT_WAVEFORM '' str_float round5 (rows (raw s)))"
proof -
  let ?step = "\<lambda>i schemefile.
                (let g1D = drop 4 (rows (raw s) ! i);
                     x = rows (raw s) ! i ! 0;
                     y = rows (raw s) ! i ! 1;
                     z = rows (raw s) ! i ! 2;
                     TE = rows (raw s) ! i ! 3;
                     nb_steps = length g1D
                 in write_Camino_wf str_float round5 nb_steps TE
                      (map (fl_mul x) g1D) (map (fl_mul y) g1D) (map (fl_mul z) g1D) schemefile)"
  have step: "?step = (\<lambda>i f. f @ spec_wf_line str_float round5 (rows (raw s) ! i))"
    by (intro ext) (simp add: Let_def write_Camino_wf_append spec_wf_line_def)
  have "fold ?step [0..<length (rows (raw s))] (''VERSION: GRADIENT_WAVEFORM '' @ newline)
      = (''VERSION: GRADIENT_WAVEFORM '' @ newline)
        @ concat (map (\<lambda>i. spec_wf_line str_float round5 (rows (raw s) ! i)) [0..<length (rows (raw s))])"
    unfolding step by (rule fold_append_concat)
  also have "\<dots> = spec_wf_text ''VERSION: GRADIENT_WAVEFORM '' str_float round5 (rows (raw s))"
    by (simp add: spec_wf_text_def map_nth_fun)
  finally show ?thesis using assms by (simp add: write_Camino_schemefile_def)
qed

lemma spec_wf_text_header:
  "spec_wf_text h1 str_float round5 rws = spec_wf_text h2 str_float round5 rws \<longleftrightarrow> h1 = h2"
  by (simp add: spec_wf_text_def)

text \<open>
  C9 (as amended). Serialising a WAVEFORM-format scheme writes exactly this text: the
  header line \<open>VERSION: GRADIENT_WAVEFORM\<close> followed by a space, then for each row one
  line beginning with the sample count and \<open>dt = TE / sample_count\<close>, followed, for each
  sample in order, by the sample scaled by the row's x, y and z components, each value
  rounded to 5 decimal places and followed by a space, so with a trailing space before
  the newline.
\<close>

theorem camino_waveform_text:
  assumes "load_from_table data thr = Inr s" "wf_ndarray data"
    and "7 < ncols (as_table data)"
  shows "write_Camino_schemefile str_float round5 fmt_e s
         = Some (spec_wf_text ''VERSION: GRADIENT_WAVEFORM '' str_float round5 (rows (raw s)))"
proof -
  have "set_b (as_table data) = Inr (version s, b s)"
    using assms(1) by (rule load_from_table_set_b)
  with set_b_wf[OF wf_as_table[OF assms(2)] assms(3)] have "version s = 2" by simp
  then show ?thesis by (rule write_Camino_schemefile_waveform)
qed

theorem camino_waveform_text_witness:
  "\<exists>s. load_from_table (Arr2 \<lparr>ncols = 8, rows = [[Fin 1, Fin 0, Fin 0, Fin (1 / 10), Fin 1, Fin 1, Fin 1, Fin 1]]\<rparr>) (Fin 0) = Inr s
      \<and> wf_ndarray (Arr2 \<lparr>ncols = 8, rows = [[Fin 1, Fin 0, Fin 0, Fin (1 / 10), Fin 1, Fin 1, Fin 1, Fin 1]]\<rparr>)
      \<and> 7 < ncols (as_table (Arr2 \<lparr>ncols = 8, rows = [[Fin 1, Fin 0, Fin 0, Fin (1 / 10), Fin 1, Fin 1, Fin 1, Fin 1]]\<rparr>))
      \<and> rows (raw s) = [[Fin 1, Fin 0, Fin 0, Fin (1 / 10), Fin 1, Fin 1, Fin 1, Fin 1]]
      \<and> (\<forall>str_float round5 fmt_e.
            write_Camino_schemefile str_float round5 fmt_e s
            = Some (''VERSION: GRADIENT_WAVEFORM '' @ newline
                    @ ''4 '' @ str_float (Fin (1 / 40)) @ '' ''
                    @ concat (replicate 4 (str_float (round5 (Fin 1)) @ '' ''
                                           @ str_float (round5 (Fin 0)) @ '' ''
                                           @ str_float (round5 (Fin 0)) @ '' ''))
                    @ newline))"
proof -
  define d where "d = (Arr2 \<lparr>ncols = 8, rows = [[Fin 1, Fin 0, Fin 0, Fin (1 / 10), Fin 1, Fin 1, Fin 1, Fin 1]]\<rparr>)"
  define s0 where "s0 = projr (load_from_table d (Fin 0))"
  have h: "load_from_table d (Fin 0) = Inr s0"
    unfolding s0_def d_def by code_simp
  have w: "wf_ndarray d" unfolding d_def by code_simp
  have n: "7 < ncols (as_table d)" unfolding d_def by simp
  have r: "rows (raw s0) = [[Fin 1, Fin 0, Fin 0, Fin (1 / 10), Fin 1, Fin 1, Fin 1, Fin 1]]"
    unfolding s0_def d_def by code_simp
  have "str_nat 4 = ''4''" by code_simp
  then have four: "str_nat (Suc (Suc (Suc (Suc 0)))) = ''4''" by (simp add: eval_nat_numeral)
  have t: "spec_wf_text ''VERSION: GRADIENT_WAVEFORM '' str_float round5
             [[Fin 1, Fin 0, Fin 0, Fin (1 / 10), Fin 1, Fin 1, Fin 1, Fin 1]]
           = ''VERSION: GRADIENT_WAVEFORM '' @ newline
                    @ ''4 '' @ str_float (Fin (1 / 40)) @ '' ''
                    @ concat (replicate 4 (str_float (round5 (Fin 1)) @ '' ''
                                           @ str_float (round5 (Fin 0)) @ '' ''
                                           @ str_float (round5 (Fin 0)) @ '' ''))
                    @ newline" for str_float round5
    by (simp add: spec_wf_text_def spec_wf_line_def four eval_nat_numeral)
  have a: "\<forall>str_float round5 fmt_e.
            write_Camino_schemefile str_float round5 fmt_e s0
            = Some (''VERSION: GRADIENT_WAVEFORM '' @ newline
                    @ ''4 '' @ str_float (Fin (1 / 40)) @ '' ''
                    @ concat (replicate 4 (str_float (round5 (Fin 1)) @ '' ''
                                           @ str_float (round5 (Fin 0)) @ '' ''
                                           @ str_float (round5 (Fin 0)) @ '' ''))
                    @ newline)"
    using camino_waveform_text[OF h w n] by (simp only: r t) simp
  have c: "load_from_table d (Fin 0) = Inr s0
      \<and> wf_ndarray d
      \<and> 7 < ncols (as_table d)
      \<and> rows (raw s0) = [[Fin 1, Fin 0, Fin 0, Fin (1 / 10), Fin 1, Fin 1, Fin 1, Fin 1]]
      \<and> (\<forall>str_float round5 fmt_e.
            write_Camino_schemefile str_float round5 fmt_e s0
            = Some (''VERSION: GRADIENT_WAVEFORM '' @ newline
                    @ ''4 '' @ str_float (Fin (1 / 40)) @ '' ''
                    @ concat (replicate 4 (str_float (round5 (Fin 1)) @ '' ''
                                           @ str_float (round5 (Fin 0)) @ '' ''
                                           @ str_float (round5 (Fin 0)) @ '' ''))
                    @ newline))"
    by (rule conjI[OF h conjI[OF w conjI[OF n conjI[OF r a]]]])
  show ?thesis by (rule exI[where x = s0]) (rule c[unfolded d_def])
qed

text \<open>
  C9 as stated gives the header line as \<open>VERSION: GRADIENT_WAVEFORM\<close>; the text that is
  written has a space between that and the newline, whatever the formatting of floats.
\<close>

theorem camino_header_counterexample:
  "version (projr (load_from_table (Arr2 \<lparr>ncols = 8, rows = [[Fin 1, Fin 0, Fin 0, Fin (1 / 10), Fin 1, Fin 1, Fin 1, Fin 1]]\<rparr>) (Fin 0))) = 2
   \<and> (\<forall>str_float round5 fmt_e.
         write_Camino_schemefile str_float round5 fmt_e (projr (load_from_table (Arr2 \<lparr>ncols = 8, rows = [[Fin 1, Fin 0, Fin 0, Fin (1 / 10), Fin 1, Fin 1, Fin 1, Fin 1]]\<rparr>) (Fin 0)))
         \<noteq> Some (spec_wf_text ''VERSION: GRADIENT_WAVEFORM'' str_float round5
                   (rows (raw (projr (load_from_table (Arr2 \<lparr>ncols = 8, rows = [[Fin 1, Fin 0, Fin 0, Fin (1 / 10), Fin 1, Fin 1, Fin 1, Fin 1]]\<rparr>) (Fin 0)))))))"
proof -
  have v: "version (projr (load_from_table (Arr2 \<lparr>ncols = 8, rows = [[Fin 1, Fin 0, Fin 0, Fin (1 / 10), Fin 1, Fin 1, Fin 1, Fin 1]]\<rparr>) (Fin 0))) = 2"
    by code_simp
  show ?thesis
    by (simp only: v write_Camino_schemefile_waveform[OF v] option.inject spec_wf_text_header)
      simp
qed

section \<open>Conversion to version 1\<close>

text \<open>
  C10. \<open>to_version_1\<close> on a BVALUE-format scheme (4 columns, version 0) falls through
  every branch: it returns \<open>None\<close>, not an error, and the scheme is as it was.
\<close>

theorem to_version_1_bvalue:
  assumes "load_from_table data thr = Inr s"
    and "ncols (as_table data) = 4"
  shows "version s = 0 \<and> to_version_1 s = (None, s)"
proof -
  have "set_b (as_table data) = Inr (version s, b s)"
    using assms(1) by (rule load_from_table_set_b)
  with assms(2) have "version s = 0" by (simp add: set_b_4)
  then show ?thesis by (simp add: to_version_1_def)
qed

theorem to_version_1_bvalue_witness:
  "\<exists>s. load_from_table (Arr2 \<lparr>ncols = 4, rows = [[Fin 1, Fin 0, Fin 0, Fin 1000], [Fin 0, Fin 1, Fin 0, Fin 0]]\<rparr>) (Fin 0) = Inr s
      \<and> ncols (as_table (Arr2 \<lparr>ncols = 4, rows = [[Fin 1, Fin 0, Fin 0, Fin 1000], [Fin 0, Fin 1, Fin 0, Fin 0]]\<rparr>)) = 4
      \<and> version s = 0 \<and> b s = [Fin 1000, Fin 0]
      \<and> to_version_1 s = (None, s)"
proof -
  define d where "d = (Arr2 \<lparr>ncols = 4, rows = [[Fin 1, Fin 0, Fin 0, Fin 1000], [Fin 0, Fin 1, Fin 0, Fin 0]]\<rparr>)"
  define s0 where "s0 = projr (load_from_table d (Fin 0))"
  have h: "load_from_table d (Fin 0) = Inr s0"
    unfolding s0_def d_def by code_simp
  have n: "ncols (as_table d) = 4" unfolding d_def by simp
  have v: "b s0 = [Fin 1000, Fin 0]" unfolding s0_def d_def by code_simp
  note th = to_version_1_bvalue[OF h n]
  have c: "load_from_table d (Fin 0) = Inr s0
      \<and> ncols (as_table d) = 4
      \<and> version s0 = 0 \<and> b s0 = [Fin 1000, Fin 0]
      \<and> to_version_1 s0 = (None, s0)"
    by (rule conjI[OF h conjI[OF n conjI[OF th[THEN conjunct1] conjI[OF v th[THEN conjunct2]]]]])
  show ?thesis by (rule exI[where x = s0]) (rule c[unfolded d_def])
qed

lemma normalize_directions_row:
  assumes "k < length rws" "3 \<le> length (rws ! k)"
  shows "length (normalize_directions rws ! k) = length (rws ! k)"
    and "\<not> fl_lt (normalize_directions rws ! k ! 1) (Fin 0)"
    and "drop 3 (normalize_directions rws ! k) = drop 3 (rws ! k)"
proof -
  note n = normalize_directions_nth[OF assms(1)]
  show "length (normalize_directions rws ! k) = length (rws ! k)"
    using assms(2) by (simp add: n)
  show "drop 3 (normalize_directions rws ! k) = drop 3 (rws ! k)"
    using assms(2) by (simp add: n)
  have "normalize_directions rws ! k ! 1
      = (if fl_lt (rws ! k ! 1) (Fin 0) then fl_neg (rws ! k ! 1) else rws ! k ! 1)"
    using assms(2) by (simp add: n nth_append)
  then show "\<not> fl_lt (normalize_directions rws ! k ! 1) (Fin 0)"
    by (cases "rws ! k ! 1") auto
qed

lemma normalize_directions_id:
  assumes "\<forall>r \<in> set rws. \<not> fl_lt (r ! 1) (Fin 0)"
  shows "normalize_directions rws = rws"
proof (rule nth_equalityI)
  show "length (normalize_directions rws) = length rws" by (rule length_normalize_directions)
next
  fix k assume "k < length (normalize_directions rws)"
  then have k: "k < length rws" by (simp add: length_normalize_directions)
  then have "\<not> fl_lt (rws ! k ! 1) (Fin 0)" using assms by simp
  then show "normalize_directions rws ! k = rws ! k"
    by (simp add: normalize_directions_nth[OF k])
qed

lemma sqrt_round_trip:
  assumes "0 \<le> (v::real)"
  shows "(267513000 * sqrt (v / (267513000 * 267513000 * (10 / 1000) * (10 / 1000)
                                   * (25 / 1000 - (10 / 1000) / 3))) * (10 / 1000))\<^sup>2
           * (25 / 1000 - (10 / 1000) / 3) * (1 / 1000000)
         = v / 1000000"
proof -
  define c :: real where "c = 267513000 * 267513000 * (10 / 1000) * (10 / 1000)
                                   * (25 / 1000 - (10 / 1000) / 3)"
  have c: "0 < c" by (simp add: c_def)
  then have "0 \<le> v / c" using assms by simp
  then have "(sqrt (v / c))\<^sup>2 = v / c" by simp
  then have "(267513000 * sqrt (v / c) * (10 / 1000))\<^sup>2 * (25 / 1000 - (10 / 1000) / 3)
      = (v / c) * c"
    by (simp add: power_mult_distrib c_def power2_eq_square)
  also have "\<dots> = v" using c by simp
  finally show ?thesis unfolding c_def by simp
qed

text \<open>
  C1, on the code. For a WAVEFORM-format scheme (more than 7 columns), \<open>to_version_1\<close>
  returns a new STEJSKAL_TANNER scheme and leaves the source as it was. For every row
  whose b-value \<open>v\<close> is finite and not negative, the new row has columns 0 to 2 of the
  source row, column 3 \<open>G = sqrt (v / (\<gamma>\<^sup>2 \<delta>\<^sup>2 (\<Delta> - \<delta>/3)))\<close> with \<open>\<gamma> = 267.513e6\<close>,
  \<open>\<delta> = 0.010\<close>, \<open>\<Delta> = 0.025\<close>, columns 4 and 5 \<open>\<Delta>\<close> and \<open>\<delta>\<close>, and column 6 the source's
  echo time. The b-value that the constructor derives for that row by the
  Stejskal-Tanner formula is \<open>v / 1e6\<close>: the source's b-value comes back only when it is
  0. The witness is the table with the single row \<open>[1, 0, 0, 0.1, 1, 1, 1, 1]\<close>.
\<close>

theorem to_version_1_waveform:
  assumes "load_from_table data thr = Inr s" "wf_ndarray data"
    and "7 < ncols (as_table data)"
    and "i < length (rows (raw s))"
    and "b s ! i = Fin v" "0 \<le> v"
  shows "\<exists>s'. to_version_1 s = (Some (Inr s'), s)
            \<and> version s' = 1
            \<and> ncols (raw s') = 7
            \<and> length (rows (raw s')) = length (rows (raw s))
            \<and> take 3 (rows (raw s') ! i) = take 3 (rows (raw s) ! i)
            \<and> rows (raw s') ! i ! 3
                = Fin (sqrt (v / (267513000 * 267513000 * (10 / 1000) * (10 / 1000)
                                   * (25 / 1000 - (10 / 1000) / 3))))
            \<and> rows (raw s') ! i ! 4 = Fin (25 / 1000)
            \<and> rows (raw s') ! i ! 5 = Fin (10 / 1000)
            \<and> rows (raw s') ! i ! 6 = rows (raw s) ! i ! 3
            \<and> b s' ! i = Fin (v / 1000000)"
proof -
  define G where "G = (\<lambda>v. fl_sqrt (fl_div v
                      (fl_mul (fl_mul (fl_mul (fl_mul (Fin 267513000) (Fin 267513000))
                                (Fin (10 / 1000))) (Fin (10 / 1000)))
                              (fl_sub (Fin (25 / 1000)) (fl_div (Fin (10 / 1000)) (Fin 3))))))"
  define dataBis where "dataBis = map (\<lambda>j. take 3 (rows (raw s) ! j)
                                @ [map G (b s) ! j, Fin (25 / 1000), Fin (10 / 1000),
                                   rows (raw s) ! j ! 3])
                         [0..<length (rows (raw s))]"
  define gv where "gv = sqrt (v / (267513000 * 267513000 * (10 / 1000) * (10 / 1000)
                                   * (25 / 1000 - (10 / 1000) / 3)))"
  note f = load_from_table_fields[OF assms(1)]
  have wf: "wf_table (as_table data)" using assms(2) by (rule wf_as_table)
  have sb: "set_b (as_table data) = Inr (version s, b s)"
    using assms(1) by (rule load_from_table_set_b)
  with set_b_wf[OF wf assms(3)] have ver: "version s = 2" by simp
  have rw: "rows (raw s) = normalize_directions (rows (as_table data))" by (simp add: f(5))
  have len: "length (rows (raw s)) = length (rows (as_table data))"
    by (simp add: rw length_normalize_directions)
  have lb: "length (b s) = length (rows (raw s))" by (simp add: f(7) len)
  have row: "3 \<le> length (rows (raw s) ! j) \<and> \<not> fl_lt (rows (raw s) ! j ! 1) (Fin 0)"
    if j: "j < length (rows (raw s))" for j
  proof -
    from j have j': "j < length (rows (as_table data))" by (simp add: len)
    then have "rows (as_table data) ! j \<in> set (rows (as_table data))" by simp
    then have "length (rows (as_table data) ! j) = ncols (as_table data)"
      using wf by (auto simp: wf_table_def list_all_iff)
    with assms(3) have l: "3 \<le> length (rows (as_table data) ! j)" by simp
    from normalize_directions_row[OF j' l] l show ?thesis by (simp add: rw)
  qed
  have tv: "to_version_1 s
      = (Some (load_from_table (Arr2 \<lparr>ncols = 7, rows = dataBis\<rparr>) (Fin 0)), s)"
    using ver by (simp add: to_version_1_def Let_def Scheme_def dataBis_def G_def)
  have ld: "length dataBis = length (rows (raw s))" by (simp add: dataBis_def)
  have dj: "dataBis ! j = take 3 (rows (raw s) ! j)
                @ [G (b s ! j), Fin (25 / 1000), Fin (10 / 1000), rows (raw s) ! j ! 3]"
    if "j < length (rows (raw s))" for j
    using that by (simp add: dataBis_def lb)
  have "\<forall>r \<in> set dataBis. \<not> fl_lt (r ! 1) (Fin 0)"
  proof
    fix r assume "r \<in> set dataBis"
    then obtain j where j: "j < length (rows (raw s))" "r = dataBis ! j"
      by (auto simp: in_set_conv_nth ld)
    from row[OF j(1)] show "\<not> fl_lt (r ! 1) (Fin 0)"
      by (simp add: j(2) dj[OF j(1)] nth_append)
  qed
  then have nd: "normalize_directions dataBis = dataBis" by (rule normalize_directions_id)
  define s' where "s' = \<lparr>raw = \<lparr>ncols = 7, rows = dataBis\<rparr>,
          version = 1,
          b = map stejskal_tanner_b dataBis,
          b0_thr = Fin 0,
          b0_idx = np_where (map (\<lambda>v. fl_le v (Fin 0)) (map stejskal_tanner_b dataBis)),
          b0_count = length (np_where (map (\<lambda>v. fl_le v (Fin 0)) (map stejskal_tanner_b dataBis))),
          dwi_idx = np_where (map (\<lambda>v. fl_gt v (Fin 0)) (map stejskal_tanner_b dataBis)),
          dwi_count = length (np_where (map (\<lambda>v. fl_gt v (Fin 0)) (map stejskal_tanner_b dataBis))),
          shells = make_shells 1 dataBis (map stejskal_tanner_b dataBis) (Fin 0)\<rparr>"
  have "set_b (as_table (Arr2 \<lparr>ncols = 7, rows = dataBis\<rparr>))
      = Inr (1, map stejskal_tanner_b dataBis)"
    by (simp add: set_b_7)
  from load_from_table_Inr[OF this, of "Fin 0"]
  have ls: "load_from_table (Arr2 \<lparr>ncols = 7, rows = dataBis\<rparr>) (Fin 0) = Inr s'"
    by (simp add: s'_def nd)
  have 1: "to_version_1 s = (Some (Inr s'), s)" by (simp add: tv ls)
  have 2: "version s' = 1" by (simp add: s'_def)
  have 3: "ncols (raw s') = 7" by (simp add: s'_def)
  have rs: "rows (raw s') = dataBis" by (simp add: s'_def)
  have 4: "length (rows (raw s')) = length (rows (raw s))" by (simp add: rs ld)
  have l3: "3 \<le> length (rows (raw s) ! i)" using row[OF assms(4)] by simp
  have gi: "G (b s ! i) = Fin gv"
    using assms(6) by (simp add: assms(5) G_def gv_def fl_sub_def)
  have di: "dataBis ! i = take 3 (rows (raw s) ! i)
                @ [Fin gv, Fin (25 / 1000), Fin (10 / 1000), rows (raw s) ! i ! 3]"
    by (simp add: dj[OF assms(4)] gi)
  have 5: "take 3 (rows (raw s') ! i) = take 3 (rows (raw s) ! i)"
    using l3 by (simp add: rs di)
  have 6: "rows (raw s') ! i ! 3 = Fin gv" using l3 by (simp add: rs di nth_append)
  have 7: "rows (raw s') ! i ! 4 = Fin (25 / 1000)" using l3 by (simp add: rs di nth_append)
  have 8: "rows (raw s') ! i ! 5 = Fin (10 / 1000)" using l3 by (simp add: rs di nth_append)
  have 9: "rows (raw s') ! i ! 6 = rows (raw s) ! i ! 3" using l3 by (simp add: rs di nth_append)
  have "b s' ! i = stejskal_tanner_b (dataBis ! i)"
    using assms(4) by (simp add: s'_def ld)
  also have "\<dots> = Fin ((267513000 * gv * (10 / 1000))\<^sup>2 * (25 / 1000 - (10 / 1000) / 3)
                        * (1 / 1000000))"
    using 6 7 8 by (intro stejskal_tanner_b_Fin) (simp_all add: rs)
  also have "\<dots> = Fin (v / 1000000)"
    unfolding gv_def by (simp only: sqrt_round_trip[OF assms(6)])
  finally have 10: "b s' ! i = Fin (v / 1000000)" .
  from 1 2 3 4 5 6 7 8 9 10 show ?thesis unfolding gv_def by blast
qed


theorem to_version_1_waveform_witness:
  "\<exists>s. load_from_table (Arr2 \<lparr>ncols = 8, rows = [[Fin 1, Fin 0, Fin 0, Fin (1 / 10), Fin 1, Fin 1, Fin 1, Fin 1]]\<rparr>) (Fin 0) = Inr s
      \<and> wf_ndarray (Arr2 \<lparr>ncols = 8, rows = [[Fin 1, Fin 0, Fin 0, Fin (1 / 10), Fin 1, Fin 1, Fin 1, Fin 1]]\<rparr>)
      \<and> 7 < ncols (as_table (Arr2 \<lparr>ncols = 8, rows = [[Fin 1, Fin 0, Fin 0, Fin (1 / 10), Fin 1, Fin 1, Fin 1, Fin 1]]\<rparr>))
      \<and> 0 < length (rows (raw s))
      \<and> b s ! 0 = Fin (2147006425344507 / 64000000)
      \<and> (0::real) \<le> 2147006425344507 / 64000000
      \<and> (\<exists>s'. to_version_1 s = (Some (Inr s'), s)
            \<and> version s' = 1
            \<and> b s' ! 0 = Fin (2147006425344507 / 64000000 / 1000000)
            \<and> b s' ! 0 \<noteq> b s ! 0)"
proof -
  define d where "d = (Arr2 \<lparr>ncols = 8, rows = [[Fin 1, Fin 0, Fin 0, Fin (1 / 10), Fin 1, Fin 1, Fin 1, Fin 1]]\<rparr>)"
  define s0 where "s0 = projr (load_from_table d (Fin 0))"
  have h: "load_from_table d (Fin 0) = Inr s0"
    unfolding s0_def d_def by code_simp
  have w: "wf_ndarray d" unfolding d_def by code_simp
  have n: "7 < ncols (as_table d)" unfolding d_def by simp
  have i: "0 < length (rows (raw s0))" unfolding s0_def d_def by code_simp
  have v: "b s0 ! 0 = Fin (2147006425344507 / 64000000)" unfolding s0_def d_def by code_simp
  have p: "(0::real) \<le> 2147006425344507 / 64000000" by simp
  from to_version_1_waveform[OF h w n i v p]
  obtain s' where s': "to_version_1 s0 = (Some (Inr s'), s0)" "version s' = 1"
    "b s' ! 0 = Fin (2147006425344507 / 64000000 / 1000000)"
    by blast
  have "b s' ! 0 \<noteq> b s0 ! 0" by (simp add: s'(3) v)
  with s' have e: "\<exists>s'. to_version_1 s0 = (Some (Inr s'), s0)
            \<and> version s' = 1
            \<and> b s' ! 0 = Fin (2147006425344507 / 64000000 / 1000000)
            \<and> b s' ! 0 \<noteq> b s0 ! 0"
    by blast
  have c: "load_from_table d (Fin 0) = Inr s0
      \<and> wf_ndarray d
      \<and> 7 < ncols (as_table d)
      \<and> 0 < length (rows (raw s0))
      \<and> b s0 ! 0 = Fin (2147006425344507 / 64000000)
      \<and> (0::real) \<le> 2147006425344507 / 64000000
      \<and> (\<exists>s'. to_version_1 s0 = (Some (Inr s'), s0)
            \<and> version s' = 1
            \<and> b s' ! 0 = Fin (2147006425344507 / 64000000 / 1000000)
            \<and> b s' ! 0 \<noteq> b s0 ! 0)"
    by (rule conjI[OF h conjI[OF w conjI[OF n conjI[OF i conjI[OF v conjI[OF p e]]]]]])
  show ?thesis by (rule exI[where x = s0]) (rule c[unfolded d_def])
qed

end
